theory Spec2Isabelle
  imports Complex_Main "HOL-Library.Char_ord" "HOL-Library.List_Lexorder"
    "HOL-Library.Product_Lexorder" "HOL-Library.Multiset"
begin

section \<open>Data model: columns and frames\<close>

text \<open>
  The dashboard script \<^verbatim>\<open>Deployement/app.py\<close> works on pandas data frames. A frame
  is modelled column-wise, as pandas stores it: a list of labelled columns, in column
  order, each column carrying its dtype. A missing cell (NaN, None, NaT) is \<open>None\<close>.

  \<^item> \<open>NumCol\<close>: a numeric dtype (what \<^verbatim>\<open>select_dtypes(np.number)\<close> selects). Values are
    idealised as reals; float rounding, infinities and int64 overflow are outside the model.
  \<^item> \<open>ObjCol\<close>: the object dtype (what \<^verbatim>\<open>select_dtypes("object")\<close> selects), holding strings.
  \<^item> \<open>DateCol\<close>: datetime64[ns], as nanoseconds since the epoch.
  \<^item> \<open>PeriodCol\<close>: period[M], as a month ordinal.

  Strings are byte strings, a Python string being given by its UTF-8 encoding. The string
  operations are modelled in full on ASCII strings and taken from the library on others.
  The labels of a frame read from a parquet file are distinct; labels can collide only
  after the column names are normalized.
\<close>

datatype column =
    NumCol "real option list"
  | ObjCol "string option list"
  | DateCol "int option list"
  | PeriodCol "int option list"

type_synonym frame = "(string \<times> column) list"

datatype error =
    NameError string
  | KeyError string
  | AttributeError string
  | TypeError string
  | ConnectionError
  | HTTPError nat
  | ParseError

text \<open>Sequencing of fallible steps: the first raise ends the run.\<close>

definition bind_err :: "error + 'a \<Rightarrow> ('a \<Rightarrow> error + 'b) \<Rightarrow> error + 'b" where
  "bind_err m f = (case m of Inl e \<Rightarrow> Inl e | Inr x \<Rightarrow> f x)"

fun col_len :: "column \<Rightarrow> nat" where
  "col_len (NumCol xs) = length xs"
| "col_len (ObjCol xs) = length xs"
| "col_len (DateCol xs) = length xs"
| "col_len (PeriodCol xs) = length xs"

definition columns :: "frame \<Rightarrow> string list" where
  "columns df = map fst df"

text \<open>
  \<^verbatim>\<open>df[name]\<close> followed by a Series operation. A label that is absent raises KeyError.
  A label carried by several columns selects a DataFrame, on which the Series-only
  operations the script applies next (\<^verbatim>\<open>.dt\<close>, \<^verbatim>\<open>.unique\<close>, ...) raise; the model reports
  this as AttributeError.
\<close>

definition get_series :: "frame \<Rightarrow> string \<Rightarrow> error + column" where
  "get_series df name =
     (case filter (\<lambda>p. fst p = name) df of
        [] \<Rightarrow> Inl (KeyError name)
      | [p] \<Rightarrow> Inr (snd p)
      | _ \<Rightarrow> Inl (AttributeError name))"

text \<open>
  The script's arithmetic on a column is modelled for the dtype the script presumes;
  on another dtype the modelled run ends with TypeError.
\<close>

definition num_series :: "frame \<Rightarrow> string \<Rightarrow> error + real option list" where
  "num_series df name =
     bind_err (get_series df name)
       (\<lambda>c. case c of NumCol xs \<Rightarrow> Inr xs | _ \<Rightarrow> Inl (TypeError name))"

definition dt_series :: "frame \<Rightarrow> string \<Rightarrow> error + int option list" where
  "dt_series df name =
     bind_err (get_series df name)
       (\<lambda>c. case c of DateCol xs \<Rightarrow> Inr xs | _ \<Rightarrow> Inl (AttributeError name))"

definition obj_series :: "frame \<Rightarrow> string \<Rightarrow> error + string option list" where
  "obj_series df name =
     bind_err (get_series df name)
       (\<lambda>c. case c of ObjCol xs \<Rightarrow> Inr xs | _ \<Rightarrow> Inl (TypeError name))"

text \<open>
  \<^verbatim>\<open>df[name] = col\<close>: an existing label keeps its position and gets the new column;
  a new label is appended as the last column.
\<close>

definition set_col :: "frame \<Rightarrow> string \<Rightarrow> column \<Rightarrow> frame" where
  "set_col df name c =
     (if name \<in> set (columns df)
      then map (\<lambda>p. if fst p = name then (name, c) else p) df
      else df @ [(name, c)])"

section \<open>Data layer: \<^verbatim>\<open>load_raw\<close>\<close>

text \<open>
  The library functions the script calls but does not define are parameters of the model:
  \<^item> \<open>read_parquet\<close>: \<^verbatim>\<open>pd.read_parquet\<close> on the downloaded bytes; \<open>None\<close> when the content is
    not a parquet table;
  \<^item> \<open>to_datetime\<close>: \<^verbatim>\<open>pd.to_datetime(col, errors="coerce")\<close>, as the timestamp given to row
    \<open>i\<close> of column \<open>col\<close> (\<open>None\<close> is NaT);
  \<^item> \<open>to_period_M\<close>: the month bucket \<^verbatim>\<open>.dt.to_period("M")\<close> gives a timestamp;
  \<^item> \<open>lower_non_ascii\<close>, \<open>remove_punct_non_ascii\<close>, \<open>strip_non_ascii\<close>: what
    \<^verbatim>\<open>.str.lower()\<close>, \<^verbatim>\<open>.str.replace(r"[^\w\s]", "", regex=True)\<close> and \<^verbatim>\<open>.str.strip()\<close> give
    for a string that has a character outside ASCII (given and returned in UTF-8), where
    Unicode's case mapping and character classes decide.
  Each is a function of its argument: the library is taken to be deterministic.
\<close>

record pandas =
  read_parquet :: "nat list \<Rightarrow> frame option"
  to_datetime :: "column \<Rightarrow> nat \<Rightarrow> int option"
  to_period_M :: "int \<Rightarrow> int"
  lower_non_ascii :: "string \<Rightarrow> string"
  remove_punct_non_ascii :: "string \<Rightarrow> string"
  strip_non_ascii :: "string \<Rightarrow> string"

text \<open>What \<^verbatim>\<open>requests.get(url)\<close> meets: no completed transfer, or a status and a body.\<close>

datatype remote = Unreachable | Response nat "nat list"

text \<open>
  The names the module binds before \<^verbatim>\<open>load_raw\<close> runs, from lines 1 to 3 and the two
  \<^verbatim>\<open>def\<close> statements: \<^verbatim>\<open>import streamlit as st\<close>, \<^verbatim>\<open>import pandas as pd\<close>,
  \<^verbatim>\<open>import numpy as np\<close>. Neither \<^verbatim>\<open>requests\<close> nor \<^verbatim>\<open>io\<close> is among them, and neither
  is a builtin.
\<close>

definition module_globals :: "string list" where
  "module_globals = [''st'', ''pd'', ''np'', ''load_raw'', ''build_dataset'']"

text \<open>
  \<^verbatim>\<open>
  def load_raw():
      url = "https://raw.githubusercontent.com/.../DHL_Project.parquet"
      response = requests.get(url)
      response.raise_for_status()  # ensure file downloaded
      df = pd.read_parquet(io.BytesIO(response.content))
      return df
  \<close>
  A global name that is not bound raises NameError when it is evaluated.
\<close>

definition load_raw :: "string list \<Rightarrow> pandas \<Rightarrow> remote \<Rightarrow> error + frame" where
  "load_raw globals lib rem =
     (if ''requests'' \<notin> set globals then Inl (NameError ''requests'')
      else case rem of
        Unreachable \<Rightarrow> Inl ConnectionError
      | Response status content \<Rightarrow>
          if 400 \<le> status \<and> status < 600 then Inl (HTTPError status)
          else if ''io'' \<notin> set globals then Inl (NameError ''io'')
          else (case read_parquet lib content of
                  None \<Rightarrow> Inl ParseError
                | Some df \<Rightarrow> Inr df))"

section \<open>Dataset builder: \<^verbatim>\<open>build_dataset\<close>\<close>

subsection \<open>Dropping columns (lines 25 to 30)\<close>

definition drop_cols :: "string list" where
  "drop_cols =
     [''Customer Password'', ''Customer Street'', ''Customer Zipcode'',
      ''Order zipcode'', ''Product Image'', ''Product Description'',
      ''Product Card Id'']"

text \<open>\<^verbatim>\<open>df.drop(columns=[c for c in drop_cols if c in df.columns])\<close>\<close>

definition drop_columns :: "frame \<Rightarrow> frame" where
  "drop_columns df = filter (\<lambda>p. fst p \<notin> set drop_cols) df"

subsection \<open>Imputation (lines 33 to 40)\<close>

text \<open>\<^verbatim>\<open>Series.ffill()\<close>: a missing cell takes the last value seen before it, if any.\<close>

fun ffill_from :: "'a option \<Rightarrow> 'a option list \<Rightarrow> 'a option list" where
  "ffill_from prev [] = []"
| "ffill_from prev (None # xs) = prev # ffill_from prev xs"
| "ffill_from prev (Some v # xs) = Some v # ffill_from (Some v) xs"

definition ffill :: "'a option list \<Rightarrow> 'a option list" where
  "ffill xs = ffill_from None xs"

text \<open>\<^verbatim>\<open>Series.fillna(v)\<close> with a scalar.\<close>

definition fillna :: "'a option list \<Rightarrow> 'a \<Rightarrow> 'a option list" where
  "fillna xs v = map (\<lambda>c. case c of None \<Rightarrow> Some v | Some x \<Rightarrow> Some x) xs"

text \<open>
  \<^verbatim>\<open>
  num_cols = df_clean.select_dtypes(np.number).columns
  for c in num_cols:
      df_clean[c] = df_clean[c].ffill().fillna(0)
  \<close>
  Each iteration rewrites the one column it reads, so the loop is a pass over the
  columns of numeric dtype.
\<close>

fun impute_numeric :: "frame \<Rightarrow> frame" where
  "impute_numeric [] = []"
| "impute_numeric ((c, NumCol xs) # df) = (c, NumCol (fillna (ffill xs) 0)) # impute_numeric df"
| "impute_numeric (p # df) = p # impute_numeric df"

definition dropna :: "'a option list \<Rightarrow> 'a list" where
  "dropna xs = map the (filter (\<lambda>c. c \<noteq> None) xs)"

text \<open>
  \<^verbatim>\<open>Series.mode()\<close>: the values that occur most often among the cells that are not
  missing, sorted ascending; empty when every cell is missing.
\<close>

definition max_count :: "'a list \<Rightarrow> nat" where
  "max_count vs = foldr max (map (count_list vs) vs) 0"

definition mode :: "'a::linorder option list \<Rightarrow> 'a list" where
  "mode xs =
     (let vs = dropna xs
      in sort (remdups (filter (\<lambda>v. count_list vs v = max_count vs) vs)))"

text \<open>
  \<^verbatim>\<open>
  cat_cols = df_clean.select_dtypes("object").columns
  for c in cat_cols:
      df_clean[c] = df_clean[c].fillna(df_clean[c].mode()[0])
  \<close>
  \<^verbatim>\<open>mode()[0]\<close> is evaluated for every object column, with or without missing cells;
  on an empty result the lookup of label 0 raises KeyError.
\<close>

fun impute_categorical :: "frame \<Rightarrow> error + frame" where
  "impute_categorical [] = Inr []"
| "impute_categorical ((c, ObjCol xs) # df) =
     (case mode xs of
        [] \<Rightarrow> Inl (KeyError ''0'')
      | m # _ \<Rightarrow> bind_err (impute_categorical df) (\<lambda>rest. Inr ((c, ObjCol (fillna xs m)) # rest)))"
| "impute_categorical (p # df) = bind_err (impute_categorical df) (\<lambda>rest. Inr (p # rest))"

subsection \<open>Dates and lead time (lines 43 to 56)\<close>

definition pd_to_datetime :: "pandas \<Rightarrow> column \<Rightarrow> column" where
  "pd_to_datetime lib c = DateCol (map (to_datetime lib c) [0..<col_len c])"

definition parse_dates :: "pandas \<Rightarrow> frame \<Rightarrow> error + frame" where
  "parse_dates lib df =
     bind_err (get_series df ''order date (DateOrders)'') (\<lambda>od.
       let df1 = set_col df ''order_date'' (pd_to_datetime lib od)
       in bind_err (get_series df1 ''shipping date (DateOrders)'') (\<lambda>sd.
            Inr (set_col df1 ''shipping_date'' (pd_to_datetime lib sd))))"

text \<open>Subtraction of two datetime columns: a timedelta in nanoseconds, NaT if either is.\<close>

definition sub_dt :: "int option list \<Rightarrow> int option list \<Rightarrow> int option list" where
  "sub_dt a b =
     map (\<lambda>(x, y). case x of None \<Rightarrow> None
                    | Some s \<Rightarrow> (case y of None \<Rightarrow> None | Some t \<Rightarrow> Some (s - t)))
         (zip a b)"

definition ns_per_day :: int where
  "ns_per_day = 86400000000000"

text \<open>
  \<^verbatim>\<open>.dt.days\<close>: the days component of a timedelta, which is the floor of the quotient
  (a delta of minus two hours has \<open>days = -1\<close>); a float column, NaN where the delta is NaT.
\<close>

definition dt_days :: "int option list \<Rightarrow> real option list" where
  "dt_days td = map (map_option (\<lambda>d. real_of_int (d div ns_per_day))) td"

text \<open>
  \<^verbatim>\<open>Series.fillna(other_series)\<close>: a missing cell takes the cell of the other series
  at the same index label; with no such label it stays missing.
\<close>

fun fillna_series :: "'a option list \<Rightarrow> 'a option list \<Rightarrow> 'a option list" where
  "fillna_series [] ys = []"
| "fillna_series (x # xs) [] = x # xs"
| "fillna_series (x # xs) (y # ys) =
     (case x of None \<Rightarrow> y | Some v \<Rightarrow> Some v) # fillna_series xs ys"

text \<open>\<^verbatim>\<open>Series.clip(lower=lo)\<close>: NaN stays NaN.\<close>

definition clip_lower :: "real option list \<Rightarrow> real \<Rightarrow> real option list" where
  "clip_lower xs lo = map (map_option (max lo)) xs"

text \<open>
  \<^verbatim>\<open>
  df_clean["lead_time_days"] = (df_clean["shipping_date"] - df_clean["order_date"]).dt.days
  df_clean["lead_time_days"] = (
      df_clean["lead_time_days"]
      .fillna(df_clean["Days for shipping (real)"])
      .clip(lower=0)
  )
  \<close>
\<close>

definition derive_lead_time :: "frame \<Rightarrow> error + frame" where
  "derive_lead_time df =
     bind_err (dt_series df ''shipping_date'') (\<lambda>sd.
     bind_err (dt_series df ''order_date'') (\<lambda>od.
       let df1 = set_col df ''lead_time_days'' (NumCol (dt_days (sub_dt sd od)))
       in bind_err (num_series df1 ''lead_time_days'') (\<lambda>lt.
          bind_err (num_series df1 ''Days for shipping (real)'') (\<lambda>dr.
            Inr (set_col df1 ''lead_time_days'' (NumCol (clip_lower (fillna_series lt dr) 0)))))))"

text \<open>
  The rule for \<open>lead_time_days\<close> in the words of the specification: the shipping date
  minus the order date in whole days; where that is unavailable, the source field
  "days for shipping (real)"; the value floored at zero.
\<close>

definition spec_lead_time :: "int option \<Rightarrow> int option \<Rightarrow> real option \<Rightarrow> real option" where
  "spec_lead_time order_date shipping_date days_real =
     (case (order_date, shipping_date) of
        (Some od, Some sd) \<Rightarrow> Some (max 0 (real_of_int ((sd - od) div ns_per_day)))
      | _ \<Rightarrow> map_option (max 0) days_real)"

subsection \<open>Column names (lines 59 to 65)\<close>

text \<open>
  A string is ASCII when no byte has its top bit set. On an ASCII string the character
  classes of the regular expression and of \<^verbatim>\<open>strip\<close> are: \<^verbatim>\<open>\w\<close> a letter, a digit or the
  underscore; \<^verbatim>\<open>\s\<close> and the whitespace of \<^verbatim>\<open>strip\<close> the space, the codes 9 to 13 and
  the codes 28 to 31.
\<close>

definition is_ascii :: "string \<Rightarrow> bool" where
  "is_ascii s = list_all (\<lambda>c. \<not> digit7 c) s"

definition ascii_upper :: string where
  "ascii_upper = ''ABCDEFGHIJKLMNOPQRSTUVWXYZ''"

definition ascii_lower :: string where
  "ascii_lower = ''abcdefghijklmnopqrstuvwxyz''"

definition ascii_digits :: string where
  "ascii_digits = ''0123456789''"

definition is_word_char :: "char \<Rightarrow> bool" where
  "is_word_char c = (c \<in> set (ascii_lower @ ascii_upper @ ascii_digits @ ''_''))"

definition is_space_char :: "char \<Rightarrow> bool" where
  "is_space_char c =
     (c \<in> set [CHR '' '', CHR 0x09, CHR 0x0A, CHR 0x0B, CHR 0x0C, CHR 0x0D,
               CHR 0x1C, CHR 0x1D, CHR 0x1E, CHR 0x1F])"

definition char_lower :: "char \<Rightarrow> char" where
  "char_lower c = (case map_of (zip ascii_upper ascii_lower) c of None \<Rightarrow> c | Some l \<Rightarrow> l)"

text \<open>\<^verbatim>\<open>.str.lower()\<close>\<close>

definition str_lower :: "pandas \<Rightarrow> string \<Rightarrow> string" where
  "str_lower lib s = (if is_ascii s then map char_lower s else lower_non_ascii lib s)"

text \<open>\<^verbatim>\<open>.str.replace(r"[^\w\s]", "", regex=True)\<close>\<close>

definition remove_punct :: "pandas \<Rightarrow> string \<Rightarrow> string" where
  "remove_punct lib s =
     (if is_ascii s then filter (\<lambda>c. is_word_char c \<or> is_space_char c) s
      else remove_punct_non_ascii lib s)"

text \<open>
  \<^verbatim>\<open>.str.replace(" ", "_")\<close>: every space becomes one underscore. In UTF-8 the byte of the
  space occurs in no other character, so this is the same on every string.
\<close>

definition replace_space :: "string \<Rightarrow> string" where
  "replace_space s = map (\<lambda>c. if c = CHR '' '' then CHR ''_'' else c) s"

text \<open>\<^verbatim>\<open>.str.strip()\<close>\<close>

definition str_strip :: "pandas \<Rightarrow> string \<Rightarrow> string" where
  "str_strip lib s =
     (if is_ascii s then rev (dropWhile is_space_char (rev (dropWhile is_space_char s)))
      else strip_non_ascii lib s)"

text \<open>
  \<^verbatim>\<open>
  df_clean.columns = (
      df_clean.columns
      .str.lower()
      .str.replace(r"[^\w\s]", "", regex=True)
      .str.replace(" ", "_")
      .str.strip()
  )
  \<close>
\<close>

definition normalize_name :: "pandas \<Rightarrow> string \<Rightarrow> string" where
  "normalize_name lib s = str_strip lib (replace_space (remove_punct lib (str_lower lib s)))"

definition normalize_columns :: "pandas \<Rightarrow> frame \<Rightarrow> frame" where
  "normalize_columns lib df = map (\<lambda>p. (normalize_name lib (fst p), snd p)) df"

text \<open>
  What the four steps do to one character of an ASCII name, before the strip: a space
  becomes an underscore, a letter its lower case, a digit, an underscore or another
  whitespace character stays, and every other character goes.
\<close>

definition canon_char :: "char \<Rightarrow> string" where
  "canon_char c =
     (if c = CHR '' '' then ''_''
      else if is_word_char c \<or> is_space_char c then [char_lower c]
      else [])"

text \<open>The column labels after \<^verbatim>\<open>df[name] = col\<close>.\<close>

definition add_label :: "string list \<Rightarrow> string \<Rightarrow> string list" where
  "add_label names name = (if name \<in> set names then names else names @ [name])"

subsection \<open>Month bucket and the whole build (lines 70 to 72)\<close>

text \<open>\<^verbatim>\<open>df_clean["order_month"] = df_clean["order_date"].dt.to_period("M")\<close>\<close>

definition add_order_month :: "pandas \<Rightarrow> frame \<Rightarrow> error + frame" where
  "add_order_month lib df =
     bind_err (dt_series df ''order_date'') (\<lambda>od.
       Inr (set_col df ''order_month'' (PeriodCol (map (map_option (to_period_M lib)) od))))"

text \<open>The body of \<^verbatim>\<open>build_dataset\<close> from line 24 on, as a function of the raw frame.\<close>

definition build_dataset_body :: "pandas \<Rightarrow> frame \<Rightarrow> error + frame" where
  "build_dataset_body lib df =
     bind_err (impute_categorical (impute_numeric (drop_columns df))) (\<lambda>d1.
     bind_err (parse_dates lib d1) (\<lambda>d2.
     bind_err (derive_lead_time d2) (\<lambda>d3.
     add_order_month lib (normalize_columns lib d3))))"

definition build_dataset :: "string list \<Rightarrow> pandas \<Rightarrow> remote \<Rightarrow> error + frame" where
  "build_dataset globals lib rem = bind_err (load_raw globals lib rem) (build_dataset_body lib)"

subsection \<open>The build as statements on mutable frames\<close>

















section \<open>Filter and report engine (script level, lines 79 to 281)\<close>

subsection \<open>Filters (lines 94 to 99)\<close>

text \<open>A cell of any dtype, as \<^verbatim>\<open>isin\<close> and the widgets see it.\<close>

datatype cell = NA | Num real | Str string | Date int | Period int

fun cells :: "column \<Rightarrow> cell list" where
  "cells (NumCol xs) = map (case_option NA Num) xs"
| "cells (ObjCol xs) = map (case_option NA Str) xs"
| "cells (DateCol xs) = map (case_option NA Date) xs"
| "cells (PeriodCol xs) = map (case_option NA Period) xs"

text \<open>\<^verbatim>\<open>Series.isin(values)\<close>\<close>

definition isin :: "column \<Rightarrow> cell list \<Rightarrow> bool list" where
  "isin c sel = map (\<lambda>v. v \<in> set sel) (cells c)"

text \<open>Boolean indexing: the cells at the positions where the mask is True.\<close>

definition select :: "'a list \<Rightarrow> bool list \<Rightarrow> 'a list" where
  "select xs msk = map fst (filter snd (zip xs msk))"

fun select_col :: "column \<Rightarrow> bool list \<Rightarrow> column" where
  "select_col (NumCol xs) msk = NumCol (select xs msk)"
| "select_col (ObjCol xs) msk = ObjCol (select xs msk)"
| "select_col (DateCol xs) msk = DateCol (select xs msk)"
| "select_col (PeriodCol xs) msk = PeriodCol (select xs msk)"

definition select_rows :: "frame \<Rightarrow> bool list \<Rightarrow> frame" where
  "select_rows df msk = map (\<lambda>p. (fst p, select_col (snd p) msk)) df"

text \<open>
  \<^verbatim>\<open>
  mask = (
      df_clean["order_region"].isin(region_filter)
      & df_clean["category_name"].isin(category_filter)
      & df_clean["customer_segment"].isin(segment_filter)
  )
  data = df_clean[mask]
  \<close>
\<close>

definition apply_filters :: "frame \<Rightarrow> cell list \<Rightarrow> cell list \<Rightarrow> cell list \<Rightarrow> error + frame" where
  "apply_filters df_clean region_filter category_filter segment_filter =
     bind_err (get_series df_clean ''order_region'') (\<lambda>r.
     bind_err (get_series df_clean ''category_name'') (\<lambda>c.
     bind_err (get_series df_clean ''customer_segment'') (\<lambda>s.
       let msk = map (\<lambda>((a, b), d). a \<and> b \<and> d)
                    (zip (zip (isin r region_filter) (isin c category_filter))
                         (isin s segment_filter))
       in Inr (select_rows df_clean msk))))"

text \<open>The records of a frame: row \<open>i\<close> pairs every column label with the cell at \<open>i\<close>.\<close>

definition nrows :: "frame \<Rightarrow> nat" where
  "nrows df = (case df of [] \<Rightarrow> 0 | p # _ \<Rightarrow> col_len (snd p))"

definition row_at :: "frame \<Rightarrow> nat \<Rightarrow> (string \<times> cell) list" where
  "row_at df i = map (\<lambda>p. (fst p, cells (snd p) ! i)) df"

definition rows :: "frame \<Rightarrow> (string \<times> cell) list list" where
  "rows df = map (row_at df) [0..<nrows df]"

definition field :: "(string \<times> cell) list \<Rightarrow> string \<Rightarrow> cell" where
  "field r name = (case map_of r name of None \<Rightarrow> NA | Some v \<Rightarrow> v)"

text \<open>A frame as pandas builds it: every column has one cell per row.\<close>

definition wf_frame :: "frame \<Rightarrow> bool" where
  "wf_frame df = list_all (\<lambda>p. col_len (snd p) = nrows df) df"

subsection \<open>KPIs (lines 121 to 141)\<close>

text \<open>\<^verbatim>\<open>Series.sum()\<close> skips missing cells and is 0 on none.\<close>

definition series_sum :: "real option list \<Rightarrow> real" where
  "series_sum xs = sum_list (dropna xs)"

text \<open>\<^verbatim>\<open>Series.mean()\<close> skips missing cells and is NaN (\<open>None\<close>) on none.\<close>

definition series_mean :: "real option list \<Rightarrow> real option" where
  "series_mean xs =
     (let vs = dropna xs
      in if vs = [] then None else Some (sum_list vs / real (length vs)))"

text \<open>Rounding to the nearest integer, ties to even.\<close>

definition rint :: "real \<Rightarrow> int" where
  "rint x =
     (let f = \<lfloor>x\<rfloor>; d = x - real_of_int f
      in if d < 1 / 2 then f
         else if 1 / 2 < d then f + 1
         else if even f then f else f + 1)"

definition round_nd :: "real \<Rightarrow> nat \<Rightarrow> real" where
  "round_nd x n = real_of_int (rint (x * 10 ^ n)) / 10 ^ n"

text \<open>\<^verbatim>\<open>round(x, n)\<close> on a float: NaN stays NaN.\<close>

definition py_round :: "real option \<Rightarrow> nat \<Rightarrow> real option" where
  "py_round x n = map_option (\<lambda>v. round_nd v n) x"

text \<open>
  What \<^verbatim>\<open>st.metric\<close> is given as its value: the string \<^verbatim>\<open>f"{x:,.0f}"\<close> of a number
  \<open>x\<close> (\<open>Formatted x\<close>), or a float, where \<open>Float None\<close> is NaN.
\<close>

datatype metric_value = Formatted real | Float "real option"

text \<open>
  \<^verbatim>\<open>
  st.metric("Total Sales (USD)", f"{data['sales'].sum():,.0f}")
  st.metric("Total Profit (USD)", f"{data['order_profit_per_order'].sum():,.0f}")
  st.metric("Avg Lead Time (days)", round(data["lead_time_days"].mean(), 2))
  st.metric("Late Delivery Risk (mean)", round(data["late_delivery_risk"].mean(), 3))
  \<close>
\<close>

definition kpi_metrics :: "frame \<Rightarrow> error + (string \<times> metric_value) list" where
  "kpi_metrics data =
     bind_err (num_series data ''sales'') (\<lambda>sales.
     bind_err (num_series data ''order_profit_per_order'') (\<lambda>profit.
     bind_err (num_series data ''lead_time_days'') (\<lambda>lead.
     bind_err (num_series data ''late_delivery_risk'') (\<lambda>risk.
       Inr [(''Total Sales (USD)'', Formatted (series_sum sales)),
            (''Total Profit (USD)'', Formatted (series_sum profit)),
            (''Avg Lead Time (days)'', Float (py_round (series_mean lead) 2)),
            (''Late Delivery Risk (mean)'', Float (py_round (series_mean risk) 3))]))))"

subsection \<open>Category by segment profitability (lines 236 to 252)\<close>

record cat_seg_row =
  category_name :: string
  customer_segment :: string
  total_sales :: real
  total_profit :: real
  avg_margin :: "real option"
  orders :: nat

text \<open>
  The group keys of \<^verbatim>\<open>groupby(["category_name", "customer_segment"])\<close>: the pairs that
  occur, without those that have a missing part, in sorted order.
\<close>

definition group_keys :: "(string option \<times> string option) list \<Rightarrow> (string \<times> string) list" where
  "group_keys ks =
     sort (remdups (map (\<lambda>k. (the (fst k), the (snd k)))
                        (filter (\<lambda>k. fst k \<noteq> None \<and> snd k \<noteq> None) ks)))"

text \<open>\<^verbatim>\<open>nunique\<close>: the number of distinct cells that are not missing.\<close>

definition nunique :: "cell list \<Rightarrow> nat" where
  "nunique cs = length (remdups (filter (\<lambda>c. c \<noteq> NA) cs))"

text \<open>
  \<^verbatim>\<open>
  cat_seg = (
      data.groupby(["category_name", "customer_segment"])
      .agg(
          total_sales=("sales", "sum"),
          total_profit=("order_profit_per_order", "sum"),
          avg_margin=("order_profit_per_order", "mean"),
          orders=("order_id", "nunique"),
      )
      .round(2)
      .reset_index()
  )
  \<close>
\<close>

definition cat_seg :: "frame \<Rightarrow> error + cat_seg_row list" where
  "cat_seg data =
     bind_err (obj_series data ''category_name'') (\<lambda>cat.
     bind_err (obj_series data ''customer_segment'') (\<lambda>seg.
     bind_err (num_series data ''sales'') (\<lambda>sales.
     bind_err (num_series data ''order_profit_per_order'') (\<lambda>profit.
     bind_err (get_series data ''order_id'') (\<lambda>oid.
       Inr (map (\<lambda>k.
              let grp = map (\<lambda>p. p = (Some (fst k), Some (snd k))) (zip cat seg)
              in \<lparr> category_name = fst k,
                   customer_segment = snd k,
                   total_sales = round_nd (series_sum (select sales grp)) 2,
                   total_profit = round_nd (series_sum (select profit grp)) 2,
                   avg_margin = py_round (series_mean (select profit grp)) 2,
                   orders = nunique (select (cells oid) grp) \<rparr>)
            (group_keys (zip cat seg))))))))"

text \<open>
  \<^verbatim>\<open>cat_seg.sort_values("total_sales", ascending=False).head(15)\<close>. Rows with equal
  \<open>total_sales\<close> keep their group order here; pandas leaves their order to its sort.
\<close>

definition sort_values_desc :: "cat_seg_row list \<Rightarrow> cat_seg_row list" where
  "sort_values_desc rs = sort_key (\<lambda>r. - total_sales r) rs"

definition cat_seg_top15 :: "frame \<Rightarrow> error + cat_seg_row list" where
  "cat_seg_top15 data = bind_err (cat_seg data) (\<lambda>rs. Inr (take 15 (sort_values_desc rs)))"

section \<open>A small data set\<close>

text \<open>
  An instance of the library parameters that knows two date strings, day 1 and day 4
  after the epoch, and treats every other string as unparseable. Its month bucket is
  the calendar month for the dates of January 1970, the only ones used here. All names
  used here are ASCII, so its three functions for other strings are never consulted.
\<close>

definition example_parse :: "string \<Rightarrow> int option" where
  "example_parse s =
     (if s = ''1970-01-02'' then Some (1 * ns_per_day)
      else if s = ''1970-01-05'' then Some (4 * ns_per_day)
      else None)"

definition example_lib :: pandas where
  "example_lib =
     \<lparr> read_parquet = (\<lambda>content. None),
       to_datetime = (\<lambda>c i. case c of
                         ObjCol xs \<Rightarrow> (case xs ! i of None \<Rightarrow> None | Some s \<Rightarrow> example_parse s)
                       | DateCol xs \<Rightarrow> xs ! i
                       | _ \<Rightarrow> None),
       to_period_M = (\<lambda>t. t div (31 * ns_per_day)),
       lower_non_ascii = (\<lambda>s. s),
       remove_punct_non_ascii = (\<lambda>s. s),
       strip_non_ascii = (\<lambda>s. s) \<rparr>"

definition example_raw :: frame where
  "example_raw =
     [(''Days for shipping (real)'', NumCol [Some 5, None, None]),
      (''Customer Password'', ObjCol [Some ''XXXX'', Some ''XXXX'', Some ''XXXX'']),
      (''order date (DateOrders)'', ObjCol [Some ''1970-01-02'', Some ''1970-01-05'', Some ''n/a'']),
      (''Order Region'', ObjCol [Some ''Oceania'', None, Some ''Oceania'']),
      (''shipping date (DateOrders)'',
         ObjCol [Some ''1970-01-05'', Some ''1970-01-02'', Some ''1970-01-05''])]"

text \<open>What the build gives for \<open>example_raw\<close>.\<close>

definition example_built :: frame where
  "example_built =
     [(''days_for_shipping_real'', NumCol [Some 5, Some 5, Some 5]),
      (''order_date_dateorders'', ObjCol [Some ''1970-01-02'', Some ''1970-01-05'', Some ''n/a'']),
      (''order_region'', ObjCol [Some ''Oceania'', Some ''Oceania'', Some ''Oceania'']),
      (''shipping_date_dateorders'',
         ObjCol [Some ''1970-01-05'', Some ''1970-01-02'', Some ''1970-01-05'']),
      (''order_date'', DateCol [Some 86400000000000, Some 345600000000000, None]),
      (''shipping_date'', DateCol [Some 345600000000000, Some 86400000000000, Some 345600000000000]),
      (''lead_time_days'', NumCol [Some 3, Some 0, Some 5]),
      (''order_month'', PeriodCol [Some 0, Some 0, None])]"

text \<open>
  \<open>example_raw\<close> with one more column, whose label has a space before and after it.
\<close>

definition example_padded :: frame where
  "example_padded = example_raw @ [('' Sales '', NumCol [Some 100, Some 200, None])]"

text \<open>A cleaned table with the columns the report engine reads.\<close>

definition example_clean :: frame where
  "example_clean =
     [(''days_for_shipping_real'', NumCol [Some 5, Some 5, Some 2, Some 2]),
      (''late_delivery_risk'', NumCol [Some 1, Some 0, Some 1, Some 0]),
      (''category_name'', ObjCol [Some ''Cleats'', Some ''Cleats'', Some ''Cleats'', Some ''Golf'']),
      (''customer_segment'', ObjCol [Some ''Consumer'', Some ''Corporate'', Some ''Consumer'', Some ''Consumer'']),
      (''order_id'', NumCol [Some 11, Some 12, Some 12, Some 13]),
      (''order_date_dateorders'',
         ObjCol [Some ''1970-01-02'', Some ''1970-01-05'', Some ''1970-01-02'', Some ''n/a'']),
      (''order_profit_per_order'', NumCol [Some 10, Some (-4), Some (-4), Some 7]),
      (''order_region'', ObjCol [Some ''Oceania'', Some ''Oceania'', Some ''Caribbean'', Some ''Caribbean'']),
      (''sales'', NumCol [Some 100, Some 200, Some 300, Some 50]),
      (''shipping_date_dateorders'',
         ObjCol [Some ''1970-01-05'', Some ''1970-01-02'', Some ''n/a'', Some ''1970-01-05'']),
      (''shipping_mode'',
         ObjCol [Some ''Standard Class'', Some ''First Class'', Some ''Standard Class'', Some ''Standard Class'']),
      (''order_date'', DateCol [Some 86400000000000, Some 345600000000000, Some 86400000000000, None]),
      (''shipping_date'', DateCol [Some 345600000000000, Some 86400000000000, None, Some 345600000000000]),
      (''lead_time_days'', NumCol [Some 3, Some 0, Some 2, Some 2]),
      (''order_month'', PeriodCol [Some 0, Some 0, Some 0, None])]"

text \<open>The rows of \<open>example_clean\<close> in region Caribbean.\<close>

definition example_view :: frame where
  "example_view =
     [(''days_for_shipping_real'', NumCol [Some 2, Some 2]),
      (''late_delivery_risk'', NumCol [Some 1, Some 0]),
      (''category_name'', ObjCol [Some ''Cleats'', Some ''Golf'']),
      (''customer_segment'', ObjCol [Some ''Consumer'', Some ''Consumer'']),
      (''order_id'', NumCol [Some 12, Some 13]),
      (''order_date_dateorders'', ObjCol [Some ''1970-01-02'', Some ''n/a'']),
      (''order_profit_per_order'', NumCol [Some (-4), Some 7]),
      (''order_region'', ObjCol [Some ''Caribbean'', Some ''Caribbean'']),
      (''sales'', NumCol [Some 300, Some 50]),
      (''shipping_date_dateorders'', ObjCol [Some ''n/a'', Some ''1970-01-05'']),
      (''shipping_mode'', ObjCol [Some ''Standard Class'', Some ''Standard Class'']),
      (''order_date'', DateCol [Some 86400000000000, None]),
      (''shipping_date'', DateCol [None, Some 345600000000000]),
      (''lead_time_days'', NumCol [Some 2, Some 2]),
      (''order_month'', PeriodCol [Some 0, None])]"

text \<open>The positions a mask keeps.\<close>

definition kept :: "bool list \<Rightarrow> nat list" where
  "kept m = filter (\<lambda>i. m ! i) [0..<length m]"

section \<open>Properties of the data layer\<close>

text \<open>
  With both names bound, \<^verbatim>\<open>load_raw\<close> would raise exactly when the transfer does not
  complete, the status is an error status, or the content is not a parquet table.
\<close>

lemma load_raw_with_imports:
  assumes "''requests'' \<in> set globals" and "''io'' \<in> set globals"
  shows "(\<exists>e. load_raw globals lib rem = Inl e) \<longleftrightarrow>
           (rem = Unreachable
            \<or> (\<exists>status content. rem = Response status content
                  \<and> ((400 \<le> status \<and> status < 600) \<or> read_parquet lib content = None)))"
  using assms by (cases rem) (auto simp: load_raw_def split: option.splits)

text \<open>
  C6. The claim: the build fails with a fetch error exactly when the transfer does not
  complete or the content cannot be parsed, and proceeds without raising when fetch and
  parse succeed. The script never imports \<^verbatim>\<open>requests\<close> (nor \<^verbatim>\<open>io\<close>), so the first
  statement of \<^verbatim>\<open>load_raw\<close> raises NameError whatever the remote source answers: the
  build fails on every call, also when the transfer and the parse would succeed.
\<close>

theorem build_dataset_name_error:
  "build_dataset module_globals lib rem = Inl (NameError ''requests'')"
  by (simp add: build_dataset_def load_raw_def module_globals_def bind_err_def)

section \<open>Properties of categorical imputation\<close>

lemma dropna_set: "v \<in> set (dropna xs) \<longleftrightarrow> Some v \<in> set xs"
  by (induction xs) (auto simp: dropna_def)

lemma dropna_count: "count_list (dropna xs) v = count_list xs (Some v)"
  by (induction xs) (auto simp: dropna_def)

lemma foldr_max_ge: "x \<in> set ns \<Longrightarrow> x \<le> foldr max ns (0::nat)"
  by (induction ns) auto

lemma foldr_max_mem: "ns \<noteq> [] \<Longrightarrow> foldr max ns (0::nat) \<in> set ns"
proof (induction ns)
  case Nil
  then show ?case by simp
next
  case (Cons a ns)
  show ?case
  proof (cases "ns = []")
    case True
    then show ?thesis by simp
  next
    case False
    with Cons.IH show ?thesis by (auto simp: max_def)
  qed
qed

lemma max_count_ge: "v \<in> set vs \<Longrightarrow> count_list vs v \<le> max_count vs"
  unfolding max_count_def by (rule foldr_max_ge) simp

lemma max_count_attained:
  assumes "vs \<noteq> []"
  shows "\<exists>v \<in> set vs. count_list vs v = max_count vs"
proof -
  from assms have "foldr max (map (count_list vs) vs) 0 \<in> set (map (count_list vs) vs)"
    by (intro foldr_max_mem) simp
  then show ?thesis by (auto simp: max_count_def)
qed

lemma mode_set:
  "set (mode xs) = {v. Some v \<in> set xs \<and> count_list xs (Some v) = max_count (dropna xs)}"
  by (auto simp: mode_def Let_def dropna_set dropna_count)

lemma mode_sorted: "sorted (mode xs)"
  by (simp add: mode_def Let_def)

lemma mode_empty_iff: "mode xs = [] \<longleftrightarrow> (\<forall>c \<in> set xs. c = None)"
proof
  assume "mode xs = []"
  then have e: "set (mode xs) = {}" by simp
  show "\<forall>c \<in> set xs. c = None"
  proof (rule ccontr)
    assume "\<not> (\<forall>c \<in> set xs. c = None)"
    then obtain v where "Some v \<in> set xs" by auto
    then have "dropna xs \<noteq> []" using dropna_set[of v xs] by auto
    from max_count_attained[OF this] obtain w
      where "w \<in> set (dropna xs)" "count_list (dropna xs) w = max_count (dropna xs)" by auto
    then have "w \<in> set (mode xs)" by (simp add: mode_set dropna_set dropna_count)
    with e show False by simp
  qed
next
  assume "\<forall>c \<in> set xs. c = None"
  then have "set (mode xs) = {}" by (auto simp: mode_set)
  then show "mode xs = []" by simp
qed

lemma mode_head:
  assumes "mode xs = m # ms"
  shows "Some m \<in> set xs"
    and "\<And>v. Some v \<in> set xs \<Longrightarrow> count_list xs (Some v) \<le> count_list xs (Some m)"
    and "\<And>v. Some v \<in> set xs \<Longrightarrow> count_list xs (Some v) = count_list xs (Some m) \<Longrightarrow> m \<le> v"
proof -
  have m: "m \<in> set (mode xs)" using assms by simp
  then show "Some m \<in> set xs" by (simp add: mode_set)
  have cm: "count_list xs (Some m) = max_count (dropna xs)" using m by (simp add: mode_set)
  show "count_list xs (Some v) \<le> count_list xs (Some m)" if "Some v \<in> set xs" for v
    using that max_count_ge[of v "dropna xs"] cm by (simp add: dropna_set dropna_count)
  show "m \<le> v" if "Some v \<in> set xs" "count_list xs (Some v) = count_list xs (Some m)" for v
  proof -
    have "v \<in> set (mode xs)" using that cm by (simp add: mode_set)
    moreover have "sorted (m # ms)" using mode_sorted[of xs] assms by simp
    ultimately show ?thesis using assms by auto
  qed
qed

lemma mode_head_perm:
  assumes "mset ys = mset xs" and "mode xs = m # ms" and "mode ys = m' # ms'"
  shows "m' = m"
proof -
  have s: "set ys = set xs" using assms(1) by (rule mset_eq_setD)
  have c: "count_list ys x = count_list xs x" for x
    using assms(1) by (metis count_mset)
  have 1: "Some m' \<in> set xs" using mode_head(1)[OF assms(3)] s by simp
  have 2: "Some m \<in> set ys" using mode_head(1)[OF assms(2)] s by simp
  have "count_list xs (Some m') \<le> count_list xs (Some m)"
    using mode_head(2)[OF assms(2) 1] .
  moreover have "count_list xs (Some m) \<le> count_list xs (Some m')"
    using mode_head(2)[OF assms(3) 2] c by simp
  ultimately have e: "count_list xs (Some m') = count_list xs (Some m)" by simp
  have "m \<le> m'" using mode_head(3)[OF assms(2) 1 e] .
  moreover have "m' \<le> m" using mode_head(3)[OF assms(3) 2] e c by simp
  ultimately show ?thesis by simp
qed

lemma impute_categorical_col:
  "impute_categorical df = Inr out \<Longrightarrow> (c, ObjCol xs) \<in> set df \<Longrightarrow>
   \<exists>m ms. mode xs = m # ms \<and> (c, ObjCol (fillna xs m)) \<in> set out"
proof (induction df arbitrary: out)
  case Nil
  then show ?case by simp
next
  case (Cons p df)
  obtain n col where p: "p = (n, col)" by (cases p)
  from Cons.prems(1) obtain rest where rest: "impute_categorical df = Inr rest"
    unfolding p by (cases col) (auto simp: bind_err_def split: sum.splits list.splits)
  show ?case
  proof (cases "(c, ObjCol xs) = p")
    case True
    with Cons.prems(1) rest show ?thesis
      unfolding p by (auto simp: bind_err_def split: list.splits)
  next
    case False
    with Cons.prems(2) have "(c, ObjCol xs) \<in> set df" by simp
    from Cons.IH[OF rest this] obtain m ms
      where m: "mode xs = m # ms" "(c, ObjCol (fillna xs m)) \<in> set rest" by blast
    have "set rest \<subseteq> set out"
      using Cons.prems(1) rest unfolding p
      by (cases col) (auto simp: bind_err_def split: list.splits)
    with m show ?thesis by blast
  qed
qed

text \<open>
  C10. Every object column of a frame that imputation accepts is filled with one value
  \<open>m\<close>: a value of the column that occurs at least as often as any other and is the
  smallest, in sort order, of the values that occur as often. The value depends on the
  contents of the column only, not on the order of its cells.
\<close>

theorem categorical_mode_tie_break:
  assumes "impute_categorical df = Inr out" and "(c, ObjCol xs) \<in> set df"
  shows "\<exists>m. (c, ObjCol (fillna xs m)) \<in> set out
           \<and> Some m \<in> set xs
           \<and> (\<forall>v. Some v \<in> set xs \<longrightarrow> count_list xs (Some v) \<le> count_list xs (Some m))
           \<and> (\<forall>v. Some v \<in> set xs \<and> count_list xs (Some v) = count_list xs (Some m) \<longrightarrow> m \<le> v)
           \<and> (\<forall>ys m' ms'. mset ys = mset xs \<and> mode ys = m' # ms' \<longrightarrow> m' = m)"
proof -
  from impute_categorical_col[OF assms] obtain m ms
    where m: "mode xs = m # ms" and out: "(c, ObjCol (fillna xs m)) \<in> set out" by blast
  have "\<forall>ys m' ms'. mset ys = mset xs \<and> mode ys = m' # ms' \<longrightarrow> m' = m"
    using mode_head_perm[OF _ m] by blast
  with out mode_head[OF m] show ?thesis by blast
qed

theorem categorical_mode_tie_break_witness:
  "impute_categorical [(''Shipping Mode'', ObjCol [Some ''Second'', None, Some ''First'', Some ''Second'', Some ''First''])]
     = Inr [(''Shipping Mode'', ObjCol [Some ''Second'', Some ''First'', Some ''First'', Some ''Second'', Some ''First''])]
   \<and> (\<exists>m. (''Shipping Mode'', ObjCol (fillna [Some ''Second'', None, Some ''First'', Some ''Second'', Some ''First''] m))
             \<in> set [(''Shipping Mode'', ObjCol [Some ''Second'', Some ''First'', Some ''First'', Some ''Second'', Some ''First''])]
           \<and> Some m \<in> set [Some ''Second'', None, Some ''First'', Some ''Second'', Some ''First'']
           \<and> (\<forall>v. Some v \<in> set [Some ''Second'', None, Some ''First'', Some ''Second'', Some ''First'']
                  \<and> count_list [Some ''Second'', None, Some ''First'', Some ''Second'', Some ''First''] (Some v)
                      = count_list [Some ''Second'', None, Some ''First'', Some ''Second'', Some ''First''] (Some m)
                \<longrightarrow> m \<le> v))"
proof -
  let ?xs = "[Some ''Second'', None, Some ''First'', Some ''Second'', Some ''First'']"
  let ?out = "[(''Shipping Mode'', ObjCol [Some ''Second'', Some ''First'', Some ''First'', Some ''Second'', Some ''First''])]"
  have h1: "impute_categorical [(''Shipping Mode'', ObjCol ?xs)] = Inr ?out"
    by code_simp
  have h2: "(''Shipping Mode'', ObjCol ?xs) \<in> set [(''Shipping Mode'', ObjCol ?xs)]"
    by simp
  from categorical_mode_tie_break[OF h1 h2] h1 show ?thesis by blast
qed


text \<open>Imputation raises exactly when some object column has no value at all.\<close>

lemma impute_categorical_raises:
  "(\<exists>e. impute_categorical df = Inl e) \<longleftrightarrow>
     (\<exists>c xs. (c, ObjCol xs) \<in> set df \<and> (\<forall>x \<in> set xs. x = None))"
proof (induction df)
  case Nil
  then show ?case by simp
next
  case (Cons p df)
  obtain m col where p: "p = (m, col)" by (cases p)
  show ?case
  proof (cases col)
    case (ObjCol xs)
    show ?thesis
    proof (cases "mode xs")
      case Nil
      then have "\<forall>x \<in> set xs. x = None" by (simp add: mode_empty_iff)
      with Nil show ?thesis unfolding p ObjCol by auto
    next
      case (Cons v vs)
      then have "\<not> (\<forall>x \<in> set xs. x = None)" using mode_empty_iff[of xs] by simp
      with Cons Cons.IH show ?thesis
        unfolding p ObjCol by (cases "impute_categorical df") (auto simp: bind_err_def)
    qed
  next
    case (NumCol xs)
    with Cons.IH show ?thesis
      unfolding p by (cases "impute_categorical df") (auto simp: bind_err_def)
  next
    case (DateCol xs)
    with Cons.IH show ?thesis
      unfolding p by (cases "impute_categorical df") (auto simp: bind_err_def)
  next
    case (PeriodCol xs)
    with Cons.IH show ?thesis
      unfolding p by (cases "impute_categorical df") (auto simp: bind_err_def)
  qed
qed

text \<open>
  C5. The claim: categorical imputation never raises, also when a categorical column is
  entirely empty. On the frame below, whose column \<^verbatim>\<open>Product Status\<close> has no value,
  \<^verbatim>\<open>mode()\<close> is empty and \<^verbatim>\<open>mode()[0]\<close> raises KeyError, which ends the build. The numeric
  path has a fallback for the same case (\<^verbatim>\<open>fillna(0)\<close>); the categorical path has none.
\<close>

theorem build_fails_on_empty_categorical:
  "build_dataset_body lib
     [(''Days for shipping (real)'', NumCol [Some 5, None]),
      (''order date (DateOrders)'', ObjCol [Some ''1970-01-02'', Some ''1970-01-05'']),
      (''shipping date (DateOrders)'', ObjCol [Some ''1970-01-05'', Some ''1970-01-05'']),
      (''Order Region'', ObjCol [Some ''Oceania'', Some ''Oceania'']),
      (''Product Status'', ObjCol [None, None])]
   = Inl (KeyError ''0'')"
  by code_simp

section \<open>Properties of the report engine\<close>

text \<open>The KPIs of any view without rows: two zero sums and two NaN means.\<close>

lemma kpi_metrics_no_rows:
  assumes "num_series data ''sales'' = Inr []"
    and "num_series data ''order_profit_per_order'' = Inr []"
    and "num_series data ''lead_time_days'' = Inr []"
    and "num_series data ''late_delivery_risk'' = Inr []"
  shows "kpi_metrics data =
           Inr [(''Total Sales (USD)'', Formatted 0),
                (''Total Profit (USD)'', Formatted 0),
                (''Avg Lead Time (days)'', Float None),
                (''Late Delivery Risk (mean)'', Float None)]"
  using assms
  by (simp add: kpi_metrics_def bind_err_def series_sum_def series_mean_def dropna_def py_round_def)

text \<open>
  C1. The claim: on an empty filtered view the sums are 0 and the two means are shown as
  a no-data marker. With no region selected the view of \<open>example_clean\<close> is empty; the
  sums are 0, and the values handed to \<^verbatim>\<open>st.metric\<close> for the two means are NaN. The
  guard \<^verbatim>\<open>if not data.empty\<close> protects the monthly trend below the KPIs, not the KPIs.
\<close>

theorem kpi_metrics_empty_view:
  "bind_err (apply_filters example_clean [] [Str ''Cleats'', Str ''Golf'']
               [Str ''Consumer'', Str ''Corporate''])
            kpi_metrics
   = Inr [(''Total Sales (USD)'', Formatted 0),
          (''Total Profit (USD)'', Formatted 0),
          (''Avg Lead Time (days)'', Float None),
          (''Late Delivery Risk (mean)'', Float None)]"
  by code_simp

subsection \<open>Filters\<close>

lemma select_map: "select (map f xs) m = map f (select xs m)"
proof -
  have "zip (map f xs) m = map (\<lambda>p. (f (fst p), snd p)) (zip xs m)"
    by (simp add: zip_map1 case_prod_beta)
  then show ?thesis
    unfolding select_def by (simp add: filter_map comp_def)
qed

lemma select_nth:
  assumes "length xs = length m"
  shows "select xs m = map (\<lambda>i. xs ! i) (kept m)"
proof -
  let ?n = "length m"
  have z: "zip xs m = map (\<lambda>i. (xs ! i, m ! i)) [0..<?n]"
    using assms by (intro nth_equalityI) auto
  show ?thesis
    unfolding select_def z kept_def by (simp add: filter_map comp_def)
qed

lemma cells_length: "length (cells c) = col_len c"
  by (cases c) simp_all

lemma cells_select_col: "cells (select_col c m) = select (cells c) m"
  by (cases c) (simp_all add: select_map)

lemma get_series_map_of:
  assumes "get_series df name = Inr c"
  shows "map_of (map (\<lambda>p. (fst p, g (snd p))) df) name = Some (g c)"
  using assms
proof (induction df)
  case Nil
  then show ?case by (simp add: get_series_def)
next
  case (Cons p df)
  show ?case
  proof (cases "fst p = name")
    case True
    with Cons.prems have "snd p = c"
      by (auto simp: get_series_def split: list.splits)
    with True show ?thesis by simp
  next
    case False
    with Cons.prems have "get_series df name = Inr c"
      by (simp add: get_series_def)
    with Cons.IH False show ?thesis by simp
  qed
qed

lemma get_series_mem: "get_series df name = Inr c \<Longrightarrow> (name, c) \<in> set df"
proof -
  assume a: "get_series df name = Inr c"
  then obtain p where p: "filter (\<lambda>p. fst p = name) df = [p]" "snd p = c"
    by (auto simp: get_series_def split: list.splits)
  then have "p \<in> set (filter (\<lambda>p. fst p = name) df)" by simp
  then have "p \<in> set df" "fst p = name" by auto
  with p(2) show ?thesis by (cases p) auto
qed

lemma wf_frame_len: "wf_frame df \<Longrightarrow> (name, c) \<in> set df \<Longrightarrow> col_len c = nrows df"
  by (auto simp: wf_frame_def list_all_iff)

lemma field_row_at:
  assumes "get_series df name = Inr c"
  shows "field (row_at df i) name = cells c ! i"
  using get_series_map_of[OF assms, of "\<lambda>c. cells c ! i"]
  by (simp add: field_def row_at_def)

lemma rows_select_rows:
  assumes wf: "wf_frame df" and ne: "df \<noteq> []" and len: "length m = nrows df"
  shows "rows (select_rows df m) = map (row_at df) (kept m)"
proof -
  have col: "cells (select_col c m) = map (\<lambda>i. cells c ! i) (kept m)"
    if "(name, c) \<in> set df" for name c
    using wf_frame_len[OF wf that] len
    by (simp add: cells_select_col select_nth cells_length)
  obtain p df' where df: "df = p # df'" using ne by (cases df) auto
  have "(fst p, snd p) \<in> set df" by (simp add: df)
  from col[OF this] have "length (cells (select_col (snd p) m)) = length (kept m)" by simp
  then have n: "nrows (select_rows df m) = length (kept m)"
    by (simp add: nrows_def select_rows_def df cells_length)
  have "row_at (select_rows df m) j = row_at df (kept m ! j)" if "j < length (kept m)" for j
    unfolding row_at_def select_rows_def using that
    by (auto simp: comp_def col[of "fst p" "snd p" for p, simplified])
  then have "rows (select_rows df m) = map (\<lambda>j. row_at df (kept m ! j)) [0..<length (kept m)]"
    unfolding rows_def n by simp
  also have "\<dots> = map (row_at df) (map (\<lambda>j. kept m ! j) [0..<length (kept m)])"
    by (simp add: comp_def)
  also have "\<dots> = map (row_at df) (kept m)"
    by (simp add: map_nth)
  finally show ?thesis .
qed


lemma isin_length: "length (isin c sel) = col_len c"
  by (simp add: isin_def cells_length)

lemma isin_nth: "i < col_len c \<Longrightarrow> isin c sel ! i = (cells c ! i \<in> set sel)"
  by (simp add: isin_def cells_length)

text \<open>
  C2. A record of the cleaned table belongs to the filtered view if and only if its
  region, its category and its segment are each in the selected set; the view keeps the
  records in their order. When one selection is empty the view has no record.
\<close>

theorem apply_filters_membership:
  assumes "apply_filters df_clean region_filter category_filter segment_filter = Inr data"
    and "wf_frame df_clean"
  shows "rows data =
           filter (\<lambda>r. field r ''order_region'' \<in> set region_filter
                      \<and> field r ''category_name'' \<in> set category_filter
                      \<and> field r ''customer_segment'' \<in> set segment_filter)
                  (rows df_clean)
         \<and> (region_filter = [] \<or> category_filter = [] \<or> segment_filter = []
              \<longrightarrow> rows data = [])"
proof -
  let ?P = "\<lambda>r. field r ''order_region'' \<in> set region_filter
                \<and> field r ''category_name'' \<in> set category_filter
                \<and> field r ''customer_segment'' \<in> set segment_filter"
  let ?n = "nrows df_clean"
  from assms(1) obtain r c s
    where r: "get_series df_clean ''order_region'' = Inr r"
      and c: "get_series df_clean ''category_name'' = Inr c"
      and s: "get_series df_clean ''customer_segment'' = Inr s"
    by (auto simp: apply_filters_def bind_err_def split: sum.splits)
  define m where "m = map (\<lambda>((a, b), d). a \<and> b \<and> d)
                    (zip (zip (isin r region_filter) (isin c category_filter))
                         (isin s segment_filter))"
  have data: "data = select_rows df_clean m"
    using assms(1) r c s by (simp add: apply_filters_def bind_err_def m_def)
  have lr: "col_len r = ?n" and lc: "col_len c = ?n" and ls: "col_len s = ?n"
    using wf_frame_len[OF assms(2)] get_series_mem r c s by blast+
  have lm: "length m = ?n"
    by (simp add: m_def isin_length lr lc ls)
  have ne: "df_clean \<noteq> []"
    using r by (auto simp: get_series_def)
  have mi: "m ! i = ?P (row_at df_clean i)" if "i < ?n" for i
    using that
    by (simp add: m_def isin_length isin_nth lr lc ls
                  field_row_at[OF r] field_row_at[OF c] field_row_at[OF s])
  have "kept m = filter (\<lambda>i. ?P (row_at df_clean i)) [0..<?n]"
    unfolding kept_def lm by (rule filter_cong) (auto simp: mi)
  then have "rows data = map (row_at df_clean) (filter (\<lambda>i. ?P (row_at df_clean i)) [0..<?n])"
    unfolding data by (simp add: rows_select_rows[OF assms(2) ne lm])
  also have "\<dots> = filter ?P (rows df_clean)"
    unfolding rows_def by (simp add: filter_map comp_def)
  finally have main: "rows data = filter ?P (rows df_clean)" .
  then show ?thesis by auto
qed

theorem apply_filters_membership_witness:
  "wf_frame example_clean
   \<and> apply_filters example_clean [Str ''Caribbean''] [Str ''Cleats'', Str ''Golf''] [Str ''Consumer'']
       = Inr example_view
   \<and> rows example_view =
       filter (\<lambda>r. field r ''order_region'' \<in> set [Str ''Caribbean'']
                  \<and> field r ''category_name'' \<in> set [Str ''Cleats'', Str ''Golf'']
                  \<and> field r ''customer_segment'' \<in> set [Str ''Consumer''])
              (rows example_clean)"
proof -
  have wf: "wf_frame example_clean" by code_simp
  have d: "apply_filters example_clean [Str ''Caribbean''] [Str ''Cleats'', Str ''Golf''] [Str ''Consumer'']
             = Inr example_view"
    by code_simp
  from apply_filters_membership[OF d wf] wf d show ?thesis by blast
qed

subsection \<open>Top 15 category by segment\<close>

text \<open>
  C8. The table of the top 15 category by segment groups has at most 15 rows, and its
  rows are non-increasing in \<open>total_sales\<close> from first to last.
\<close>

theorem cat_seg_top15_sorted:
  assumes "cat_seg_top15 data = Inr rs"
  shows "length rs \<le> 15 \<and> sorted_wrt (\<lambda>a b. total_sales b \<le> total_sales a) rs"
proof -
  from assms obtain all_rows where rs: "rs = take 15 (sort_values_desc all_rows)"
    by (auto simp: cat_seg_top15_def bind_err_def split: sum.splits)
  have "sorted (map (\<lambda>r. - total_sales r) (sort_values_desc all_rows))"
    unfolding sort_values_desc_def by (rule sorted_sort_key)
  then have "sorted_wrt (\<lambda>a b. total_sales b \<le> total_sales a) (sort_values_desc all_rows)"
    by (simp add: sorted_map)
  then have "sorted_wrt (\<lambda>a b. total_sales b \<le> total_sales a) rs"
    unfolding rs by (rule sorted_wrt_take)
  moreover have "length rs \<le> 15" unfolding rs by simp
  ultimately show ?thesis by simp
qed

theorem cat_seg_top15_sorted_witness:
  "cat_seg_top15 example_clean =
     Inr [\<lparr>category_name = ''Cleats'', customer_segment = ''Consumer'',
            total_sales = 400, total_profit = 6, avg_margin = Some 3, orders = 2\<rparr>,
          \<lparr>category_name = ''Cleats'', customer_segment = ''Corporate'',
            total_sales = 200, total_profit = - 4, avg_margin = Some (- 4), orders = 1\<rparr>,
          \<lparr>category_name = ''Golf'', customer_segment = ''Consumer'',
            total_sales = 50, total_profit = 7, avg_margin = Some 7, orders = 1\<rparr>]
   \<and> sorted_wrt (\<lambda>a b. total_sales b \<le> total_sales a)
        [\<lparr>category_name = ''Cleats'', customer_segment = ''Consumer'',
            total_sales = 400, total_profit = 6, avg_margin = Some 3, orders = 2\<rparr>,
          \<lparr>category_name = ''Cleats'', customer_segment = ''Corporate'',
            total_sales = 200, total_profit = - 4, avg_margin = Some (- 4), orders = 1\<rparr>,
          \<lparr>category_name = ''Golf'', customer_segment = ''Consumer'',
            total_sales = 50, total_profit = 7, avg_margin = Some 7, orders = 1\<rparr>]"
proof -
  have h: "cat_seg_top15 example_clean =
     Inr [\<lparr>category_name = ''Cleats'', customer_segment = ''Consumer'',
            total_sales = 400, total_profit = 6, avg_margin = Some 3, orders = 2\<rparr>,
          \<lparr>category_name = ''Cleats'', customer_segment = ''Corporate'',
            total_sales = 200, total_profit = - 4, avg_margin = Some (- 4), orders = 1\<rparr>,
          \<lparr>category_name = ''Golf'', customer_segment = ''Consumer'',
            total_sales = 50, total_profit = 7, avg_margin = Some 7, orders = 1\<rparr>]"
    by code_simp
  from cat_seg_top15_sorted[OF h] h show ?thesis by blast
qed

section \<open>Properties of the dataset builder\<close>

subsection \<open>Reading and writing columns\<close>

lemma get_series_unique:
  assumes "get_series df name = Inr c" and "(name, c') \<in> set df"
  shows "c' = c"
proof -
  from assms(1) obtain p where p: "filter (\<lambda>p. fst p = name) df = [p]" "snd p = c"
    by (auto simp: get_series_def split: list.splits)
  have "(name, c') \<in> set (filter (\<lambda>p. fst p = name) df)" using assms(2) by simp
  with p show ?thesis by auto
qed

lemma set_col_mem_same: "(name, c) \<in> set (set_col df name c)"
  by (auto simp: set_col_def columns_def)

lemma set_col_mem_other:
  "name \<noteq> other \<Longrightarrow> (name, c) \<in> set df \<Longrightarrow> (name, c) \<in> set (set_col df other c')"
  by (auto simp: set_col_def)

lemma set_col_filter_other:
  "name \<noteq> other \<Longrightarrow>
   filter (\<lambda>p. fst p = name) (set_col df other c) = filter (\<lambda>p. fst p = name) df"
proof -
  assume ne: "name \<noteq> other"
  have "filter (\<lambda>p. fst p = name) (map (\<lambda>p. if fst p = other then (other, c) else p) df)
          = filter (\<lambda>p. fst p = name) df"
    using ne by (induction df) auto
  with ne show ?thesis by (simp add: set_col_def)
qed

lemma get_series_set_col_other:
  "name \<noteq> other \<Longrightarrow> get_series (set_col df other c) name = get_series df name"
  by (simp add: get_series_def set_col_filter_other)

lemma get_series_set_col_same:
  assumes "get_series (set_col df name c) name = Inr c'"
  shows "c' = c"
  using get_series_unique[OF assms set_col_mem_same] by simp

lemma columns_set_col:
  "columns (set_col df name c) =
     (if name \<in> set (columns df) then columns df else columns df @ [name])"
proof -
  have "map fst (map (\<lambda>p. if fst p = name then (name, c) else p) df) = map fst df"
    by (induction df) auto
  then show ?thesis by (simp add: set_col_def columns_def)
qed

lemma num_series_get: "num_series df name = Inr xs \<longleftrightarrow> get_series df name = Inr (NumCol xs)"
  by (auto simp: num_series_def bind_err_def split: sum.splits column.splits)

lemma dt_series_get: "dt_series df name = Inr xs \<longleftrightarrow> get_series df name = Inr (DateCol xs)"
  by (auto simp: dt_series_def bind_err_def split: sum.splits column.splits)

subsection \<open>Imputation keeps the shape and leaves no numeric cell missing\<close>

lemma ffill_from_length: "length (ffill_from prev xs) = length xs"
  by (induction prev xs rule: ffill_from.induct) auto

lemma fillna_no_None: "None \<notin> set (fillna xs v)"
  by (auto simp: fillna_def split: option.splits)

lemma fillna_length: "length (fillna xs v) = length xs"
  by (simp add: fillna_def)

lemma drop_columns_mem: "(n, c) \<in> set (drop_columns df) \<Longrightarrow> (n, c) \<in> set df"
  by (simp add: drop_columns_def)

lemma impute_numeric_num: "(n, NumCol xs) \<in> set (impute_numeric df) \<Longrightarrow> None \<notin> set xs"
  by (induction df rule: impute_numeric.induct) (auto simp: fillna_no_None)

lemma impute_numeric_len:
  "(n, c) \<in> set (impute_numeric df) \<Longrightarrow> \<exists>c0. (n, c0) \<in> set df \<and> col_len c = col_len c0"
  by (induction df rule: impute_numeric.induct)
     (auto simp: fillna_length ffill_def ffill_from_length)

lemma impute_categorical_mem:
  "impute_categorical df = Inr out \<Longrightarrow> (n, c) \<in> set out \<Longrightarrow>
   (n, c) \<in> set df \<or> (\<exists>xs ys. c = ObjCol ys \<and> (n, ObjCol xs) \<in> set df \<and> length ys = length xs)"
proof (induction df arbitrary: out)
  case Nil
  then show ?case by simp
next
  case (Cons p df)
  obtain m col where p: "p = (m, col)" by (cases p)
  from Cons.prems(1) obtain rest where rest: "impute_categorical df = Inr rest"
    unfolding p by (cases col) (auto simp: bind_err_def split: sum.splits list.splits)
  from Cons.prems(1) rest obtain q where out: "out = q # rest"
    and q: "q = p \<or> (\<exists>xs ys. p = (m, ObjCol xs) \<and> q = (m, ObjCol ys) \<and> length ys = length xs)"
    unfolding p by (cases col) (auto simp: bind_err_def fillna_length split: list.splits)
  show ?case
  proof (cases "(n, c) = q")
    case True
    with q show ?thesis by auto
  next
    case False
    with Cons.prems(2) out have "(n, c) \<in> set rest" by auto
    from Cons.IH[OF rest this] show ?thesis by auto
  qed
qed

lemma impute_categorical_num:
  "impute_categorical df = Inr out \<Longrightarrow> (n, NumCol xs) \<in> set out \<Longrightarrow> (n, NumCol xs) \<in> set df"
  using impute_categorical_mem by blast

lemma impute_categorical_len:
  "impute_categorical df = Inr out \<Longrightarrow> (n, c) \<in> set out \<Longrightarrow>
   \<exists>c0. (n, c0) \<in> set df \<and> col_len c = col_len c0"
  using impute_categorical_mem[of df out n c] by auto

text \<open>After imputation: same column lengths as the raw table, no numeric cell missing.\<close>

lemma imputed_frame:
  assumes "impute_categorical (impute_numeric (drop_columns df)) = Inr d"
    and "wf_frame df" and "(n, c) \<in> set d"
  shows "col_len c = nrows df" and "\<And>xs. c = NumCol xs \<Longrightarrow> None \<notin> set xs"
proof -
  from impute_categorical_len[OF assms(1,3)] obtain c1
    where "(n, c1) \<in> set (impute_numeric (drop_columns df))" "col_len c = col_len c1" by blast
  moreover from impute_numeric_len[OF this(1)] obtain c0
    where "(n, c0) \<in> set (drop_columns df)" "col_len c1 = col_len c0" by blast
  ultimately show "col_len c = nrows df"
    using wf_frame_len[OF assms(2)] drop_columns_mem by metis
  show "None \<notin> set xs" if "c = NumCol xs" for xs
    using impute_categorical_num[OF assms(1)] assms(3) that impute_numeric_num by blast
qed


subsection \<open>The stages of the build\<close>

lemma bind_err_Inr: "bind_err m f = Inr y \<longleftrightarrow> (\<exists>x. m = Inr x \<and> f x = Inr y)"
  by (cases m) (simp_all add: bind_err_def)

lemma set_col_twice: "set_col (set_col df name a) name b = set_col df name b"
proof -
  let ?g = "\<lambda>c p. if fst p = name then (name, c) else p"
  have mem: "name \<in> set (columns (set_col df name a))"
    by (simp add: columns_set_col)
  show ?thesis
  proof (cases "name \<in> set (columns df)")
    case True
    have "map (?g b) (map (?g a) df) = map (?g b) df"
      by (induction df) auto
    with True mem show ?thesis by (simp add: set_col_def)
  next
    case False
    then have "map (?g b) df = df"
      by (induction df) (auto simp: columns_def)
    with False mem show ?thesis by (simp add: set_col_def)
  qed
qed

lemma parse_dates_Inr:
  assumes "parse_dates lib d = Inr d'"
  obtains osrc ssrc where
    "get_series d ''order date (DateOrders)'' = Inr osrc"
    "get_series d ''shipping date (DateOrders)'' = Inr ssrc"
    "d' = set_col (set_col d ''order_date'' (pd_to_datetime lib osrc))
                  ''shipping_date'' (pd_to_datetime lib ssrc)"
proof -
  from assms obtain osrc ssrc where
    o: "get_series d ''order date (DateOrders)'' = Inr osrc" and
    s: "get_series (set_col d ''order_date'' (pd_to_datetime lib osrc))
          ''shipping date (DateOrders)'' = Inr ssrc" and
    d': "d' = set_col (set_col d ''order_date'' (pd_to_datetime lib osrc))
                  ''shipping_date'' (pd_to_datetime lib ssrc)"
    by (auto simp: parse_dates_def bind_err_Inr Let_def)
  have "get_series d ''shipping date (DateOrders)'' = Inr ssrc"
    using s by (simp add: get_series_set_col_other)
  with o d' that show ?thesis by blast
qed

text \<open>The column that lines 51 to 56 compute from the two dates and the fallback.\<close>

lemma derive_lead_time_Inr:
  assumes "derive_lead_time d = Inr d'"
  obtains sd od dr where
    "get_series d ''shipping_date'' = Inr (DateCol sd)"
    "get_series d ''order_date'' = Inr (DateCol od)"
    "get_series d ''Days for shipping (real)'' = Inr (NumCol dr)"
    "d' = set_col d ''lead_time_days''
            (NumCol (clip_lower (fillna_series (dt_days (sub_dt sd od)) dr) 0))"
proof -
  from assms obtain sd od lt dr where
    sd: "dt_series d ''shipping_date'' = Inr sd" and
    od: "dt_series d ''order_date'' = Inr od" and
    lt: "num_series (set_col d ''lead_time_days'' (NumCol (dt_days (sub_dt sd od))))
           ''lead_time_days'' = Inr lt" and
    dr: "num_series (set_col d ''lead_time_days'' (NumCol (dt_days (sub_dt sd od))))
           ''Days for shipping (real)'' = Inr dr" and
    d': "d' = set_col (set_col d ''lead_time_days'' (NumCol (dt_days (sub_dt sd od))))
                ''lead_time_days'' (NumCol (clip_lower (fillna_series lt dr) 0))"
    by (auto simp: derive_lead_time_def bind_err_Inr Let_def)
  have "NumCol lt = NumCol (dt_days (sub_dt sd od))"
    using lt unfolding num_series_get by (rule get_series_set_col_same)
  then have lt': "lt = dt_days (sub_dt sd od)" by simp
  have dr': "get_series d ''Days for shipping (real)'' = Inr (NumCol dr)"
    using dr by (simp add: num_series_get get_series_set_col_other)
  show ?thesis
    using that[OF sd[unfolded dt_series_get] od[unfolded dt_series_get] dr']
    by (simp add: d' lt' set_col_twice)
qed


lemma normalize_columns_mem:
  "(n, c) \<in> set df \<Longrightarrow> (normalize_name lib n, c) \<in> set (normalize_columns lib df)"
  by (force simp: normalize_columns_def)

lemma normalize_order_date: "normalize_name lib ''order_date'' = ''order_date''"
  by code_simp

lemma normalize_shipping_date: "normalize_name lib ''shipping_date'' = ''shipping_date''"
  by code_simp

lemma normalize_lead_time_days: "normalize_name lib ''lead_time_days'' = ''lead_time_days''"
  by code_simp

lemma normalize_days_real: "normalize_name lib ''Days for shipping (real)'' = ''days_for_shipping_real''"
  by code_simp

lemma build_dataset_body_Inr:
  assumes "build_dataset_body lib df = Inr t"
  obtains d2 osrc ssrc dr where
    "impute_categorical (impute_numeric (drop_columns df)) = Inr d2"
    "get_series d2 ''order date (DateOrders)'' = Inr osrc"
    "get_series d2 ''shipping date (DateOrders)'' = Inr ssrc"
    "get_series d2 ''Days for shipping (real)'' = Inr (NumCol dr)"
    "t = set_col
           (normalize_columns lib
              (set_col
                 (set_col (set_col d2 ''order_date'' (pd_to_datetime lib osrc))
                    ''shipping_date'' (pd_to_datetime lib ssrc))
                 ''lead_time_days''
                 (NumCol (clip_lower
                    (fillna_series
                       (dt_days (sub_dt (map (to_datetime lib ssrc) [0..<col_len ssrc])
                                        (map (to_datetime lib osrc) [0..<col_len osrc])))
                       dr) 0))))
           ''order_month''
           (PeriodCol (map (map_option (to_period_M lib))
                           (map (to_datetime lib osrc) [0..<col_len osrc])))"
proof -
  let ?OD = "pd_to_datetime lib"
  from assms obtain d2 d3 d4 where
    d2: "impute_categorical (impute_numeric (drop_columns df)) = Inr d2" and
    d3: "parse_dates lib d2 = Inr d3" and
    d4: "derive_lead_time d3 = Inr d4" and
    t: "add_order_month lib (normalize_columns lib d4) = Inr t"
    by (auto simp: build_dataset_body_def bind_err_Inr)
  from d3 obtain osrc ssrc where
    osrc: "get_series d2 ''order date (DateOrders)'' = Inr osrc" and
    ssrc: "get_series d2 ''shipping date (DateOrders)'' = Inr ssrc" and
    d3': "d3 = set_col (set_col d2 ''order_date'' (?OD osrc)) ''shipping_date'' (?OD ssrc)"
    by (rule parse_dates_Inr)
  from d4 obtain sd od dr where
    sd: "get_series d3 ''shipping_date'' = Inr (DateCol sd)" and
    od: "get_series d3 ''order_date'' = Inr (DateCol od)" and
    dr: "get_series d3 ''Days for shipping (real)'' = Inr (NumCol dr)" and
    d4': "d4 = set_col d3 ''lead_time_days''
            (NumCol (clip_lower (fillna_series (dt_days (sub_dt sd od)) dr) 0))"
    by (rule derive_lead_time_Inr)
  have "DateCol sd = ?OD ssrc"
    using sd unfolding d3' by (rule get_series_set_col_same)
  then have sd': "sd = map (to_datetime lib ssrc) [0..<col_len ssrc]"
    by (simp add: pd_to_datetime_def)
  have "get_series (set_col d2 ''order_date'' (?OD osrc)) ''order_date'' = Inr (DateCol od)"
    using od unfolding d3' by (simp add: get_series_set_col_other)
  then have "DateCol od = ?OD osrc"
    by (rule get_series_set_col_same)
  then have od': "od = map (to_datetime lib osrc) [0..<col_len osrc]"
    by (simp add: pd_to_datetime_def)
  have dr': "get_series d2 ''Days for shipping (real)'' = Inr (NumCol dr)"
    using dr unfolding d3' by (simp add: get_series_set_col_other)
  from t obtain om where
    om: "dt_series (normalize_columns lib d4) ''order_date'' = Inr om" and
    t': "t = set_col (normalize_columns lib d4) ''order_month''
               (PeriodCol (map (map_option (to_period_M lib)) om))"
    by (auto simp: add_order_month_def bind_err_Inr)
  have "(''order_date'', DateCol od) \<in> set d4"
    unfolding d4' by (intro set_col_mem_other get_series_mem od) simp
  then have "(''order_date'', DateCol od) \<in> set (normalize_columns lib d4)"
    using normalize_columns_mem[of "''order_date''"] by (simp add: normalize_order_date)
  then have "DateCol od = DateCol om"
    using om unfolding dt_series_get by (rule get_series_unique[rotated])
  then have om': "om = od" by simp
  show ?thesis
    by (rule that[OF d2 osrc ssrc dr']) (simp only: t' om' d4' d3' sd' od')
qed

lemma fillna_series_zip:
  "length xs = length ys \<Longrightarrow>
   fillna_series xs ys = map (\<lambda>(x, y). case x of None \<Rightarrow> y | Some v \<Rightarrow> Some v) (zip xs ys)"
  by (induction xs ys rule: list_induct2) auto

lemma lead_time_refines:
  assumes "length od = n" "length sd = n" "length dr = n"
  shows "clip_lower (fillna_series (dt_days (sub_dt sd od)) dr) 0
           = map (\<lambda>((od, sd), d). spec_lead_time od sd d) (zip (zip od sd) dr)"
proof -
  have l: "length (dt_days (sub_dt sd od)) = length dr"
    using assms by (simp add: dt_days_def sub_dt_def)
  show ?thesis
    unfolding fillna_series_zip[OF l] clip_lower_def
    using assms
    by (intro nth_equalityI)
       (auto simp: dt_days_def sub_dt_def spec_lead_time_def split: option.splits)
qed


text \<open>
  The derived column as the cleaned table holds it, with the two date columns and the
  imputed fallback column it was computed from.
\<close>

lemma cleaned_lead_time:
  assumes build: "build_dataset_body lib df = Inr t" and wf: "wf_frame df"
  obtains od sd dr where
    "(''order_date'', DateCol od) \<in> set t"
    "(''shipping_date'', DateCol sd) \<in> set t"
    "(''days_for_shipping_real'', NumCol dr) \<in> set t"
    "(''lead_time_days'',
        NumCol (map (\<lambda>((od, sd), d). spec_lead_time od sd d) (zip (zip od sd) dr))) \<in> set t"
    "length od = nrows df" "length sd = nrows df" "length dr = nrows df" "None \<notin> set dr"
proof -
  from build obtain d2 osrc ssrc dr where
    d2: "impute_categorical (impute_numeric (drop_columns df)) = Inr d2" and
    osrc: "get_series d2 ''order date (DateOrders)'' = Inr osrc" and
    ssrc: "get_series d2 ''shipping date (DateOrders)'' = Inr ssrc" and
    dr: "get_series d2 ''Days for shipping (real)'' = Inr (NumCol dr)" and
    t: "t = set_col
           (normalize_columns lib
              (set_col
                 (set_col (set_col d2 ''order_date'' (pd_to_datetime lib osrc))
                    ''shipping_date'' (pd_to_datetime lib ssrc))
                 ''lead_time_days''
                 (NumCol (clip_lower
                    (fillna_series
                       (dt_days (sub_dt (map (to_datetime lib ssrc) [0..<col_len ssrc])
                                        (map (to_datetime lib osrc) [0..<col_len osrc])))
                       dr) 0))))
           ''order_month''
           (PeriodCol (map (map_option (to_period_M lib))
                           (map (to_datetime lib osrc) [0..<col_len osrc])))"
    by (rule build_dataset_body_Inr)
  define od where "od = map (to_datetime lib osrc) [0..<col_len osrc]"
  define sd where "sd = map (to_datetime lib ssrc) [0..<col_len ssrc]"
  define lt where "lt = clip_lower (fillna_series (dt_days (sub_dt sd od)) dr) 0"
  define d3 where "d3 = set_col (set_col d2 ''order_date'' (DateCol od)) ''shipping_date'' (DateCol sd)"
  define d4 where "d4 = set_col d3 ''lead_time_days'' (NumCol lt)"
  have t': "t = set_col (normalize_columns lib d4) ''order_month''
                  (PeriodCol (map (map_option (to_period_M lib)) od))"
    unfolding t d4_def d3_def lt_def od_def sd_def pd_to_datetime_def ..
  have lo: "length od = nrows df"
    using imputed_frame(1)[OF d2 wf get_series_mem[OF osrc]] by (simp add: od_def)
  have ls: "length sd = nrows df"
    using imputed_frame(1)[OF d2 wf get_series_mem[OF ssrc]] by (simp add: sd_def)
  have ld: "length dr = nrows df"
    using imputed_frame(1)[OF d2 wf get_series_mem[OF dr]] by simp
  have nn: "None \<notin> set dr"
    using imputed_frame(2)[OF d2 wf get_series_mem[OF dr]] by simp
  have lt': "lt = map (\<lambda>((od, sd), d). spec_lead_time od sd d) (zip (zip od sd) dr)"
    unfolding lt_def by (rule lead_time_refines[OF lo ls ld])
  have m_od: "(''order_date'', DateCol od) \<in> set d4"
    unfolding d4_def d3_def
    by (intro set_col_mem_other set_col_mem_same) simp_all
  have m_sd: "(''shipping_date'', DateCol sd) \<in> set d4"
    unfolding d4_def d3_def
    by (intro set_col_mem_other set_col_mem_same) simp_all
  have m_dr: "(''Days for shipping (real)'', NumCol dr) \<in> set d4"
    unfolding d4_def d3_def
    by (intro set_col_mem_other get_series_mem[OF dr]) simp_all
  have m_lt: "(''lead_time_days'', NumCol lt) \<in> set d4"
    unfolding d4_def by (rule set_col_mem_same)
  have up: "(normalize_name lib n, c) \<in> set t"
    if "(n, c) \<in> set d4" "normalize_name lib n \<noteq> ''order_month''" for n c
    unfolding t' using that by (intro set_col_mem_other normalize_columns_mem)
  have "(''order_date'', DateCol od) \<in> set t"
    using up[OF m_od] by (simp add: normalize_order_date)
  moreover have "(''shipping_date'', DateCol sd) \<in> set t"
    using up[OF m_sd] by (simp add: normalize_shipping_date)
  moreover have "(''days_for_shipping_real'', NumCol dr) \<in> set t"
    using up[OF m_dr] by (simp add: normalize_days_real)
  moreover have "(''lead_time_days'', NumCol lt) \<in> set t"
    using up[OF m_lt] by (simp add: normalize_lead_time_days)
  ultimately show ?thesis
    using that lo ls ld nn unfolding lt' by blast
qed

lemma spec_lead_time_nonneg:
  "d \<noteq> None \<Longrightarrow> \<exists>v. spec_lead_time od sd d = Some v \<and> 0 \<le> v"
  by (auto simp: spec_lead_time_def split: option.splits)

text \<open>
  C4. In the cleaned table the build returns for a well-formed raw table, every cell of
  \<open>lead_time_days\<close> holds a value, and the value is at least zero.
\<close>

theorem lead_time_days_nonneg:
  assumes "build_dataset_body lib df = Inr t" and "wf_frame df"
    and "get_series t ''lead_time_days'' = Inr c"
  shows "\<exists>xs. c = NumCol xs \<and> length xs = nrows df \<and> (\<forall>x \<in> set xs. \<exists>v. x = Some v \<and> 0 \<le> v)"
proof -
  from assms(1,2) obtain od sd dr where
    lt: "(''lead_time_days'',
            NumCol (map (\<lambda>((od, sd), d). spec_lead_time od sd d) (zip (zip od sd) dr))) \<in> set t"
    and len: "length od = nrows df" "length sd = nrows df" "length dr = nrows df"
    and nn: "None \<notin> set dr"
    by (rule cleaned_lead_time)
  let ?xs = "map (\<lambda>((od, sd), d). spec_lead_time od sd d) (zip (zip od sd) dr)"
  have c: "c = NumCol ?xs"
    using get_series_unique[OF assms(3) lt] by simp
  have "\<exists>v. x = Some v \<and> 0 \<le> v" if "x \<in> set ?xs" for x
  proof -
    from that obtain o' s' d where "((o', s'), d) \<in> set (zip (zip od sd) dr)"
      and x: "x = spec_lead_time o' s' d" by auto
    then have "d \<in> set dr" by (auto dest: set_zip_rightD)
    with nn have "d \<noteq> None" by (cases d) auto
    from spec_lead_time_nonneg[OF this] x show ?thesis by simp
  qed
  with c len show ?thesis by simp
qed

text \<open>
  C3. In the cleaned table, \<open>lead_time_days\<close> is, row by row, the rule of the
  specification applied to the \<open>order_date\<close>, \<open>shipping_date\<close> and
  \<open>days_for_shipping_real\<close> cells of the row: the whole days from order to shipping,
  the (imputed, never missing) days-for-shipping value where a date is missing, and zero
  where that is negative. An order on day 1 shipped on day 4 has lead time 3; a shipping
  date before the order date gives 0.
\<close>

theorem lead_time_days_rule:
  assumes "build_dataset_body lib df = Inr t" and "wf_frame df"
    and "get_series t ''order_date'' = Inr (DateCol order_date)"
    and "get_series t ''shipping_date'' = Inr (DateCol shipping_date)"
    and "get_series t ''days_for_shipping_real'' = Inr (NumCol days_real)"
    and "get_series t ''lead_time_days'' = Inr (NumCol lead_time_days)"
  shows "lead_time_days =
           map (\<lambda>((od, sd), d). spec_lead_time od sd d)
               (zip (zip order_date shipping_date) days_real)
         \<and> length order_date = nrows df \<and> length shipping_date = nrows df
         \<and> length days_real = nrows df \<and> None \<notin> set days_real
         \<and> spec_lead_time (Some (1 * ns_per_day)) (Some (4 * ns_per_day)) d = Some 3
         \<and> (\<forall>od sd. sd < od \<longrightarrow> spec_lead_time (Some od) (Some sd) d = Some 0)"
proof -
  from assms(1,2) obtain od sd dr where
    m: "(''order_date'', DateCol od) \<in> set t"
       "(''shipping_date'', DateCol sd) \<in> set t"
       "(''days_for_shipping_real'', NumCol dr) \<in> set t"
       "(''lead_time_days'',
            NumCol (map (\<lambda>((od, sd), d). spec_lead_time od sd d) (zip (zip od sd) dr))) \<in> set t"
    and len: "length od = nrows df" "length sd = nrows df" "length dr = nrows df"
    and nn: "None \<notin> set dr"
    by (rule cleaned_lead_time)
  have "od = order_date" "sd = shipping_date" "dr = days_real"
    using get_series_unique[OF assms(3) m(1)] get_series_unique[OF assms(4) m(2)]
          get_series_unique[OF assms(5) m(3)] by simp_all
  moreover have "lead_time_days = map (\<lambda>((od, sd), d). spec_lead_time od sd d) (zip (zip od sd) dr)"
    using get_series_unique[OF assms(6) m(4)] by simp
  moreover have "spec_lead_time (Some (1 * ns_per_day)) (Some (4 * ns_per_day)) d = Some 3"
    by (simp add: spec_lead_time_def ns_per_day_def)
  moreover have "spec_lead_time (Some a) (Some b) d = Some 0" if "b < a" for a b
  proof -
    have "(b - a) div ns_per_day < 0"
      using that by (simp add: ns_per_day_def div_neg_pos_less0)
    then show ?thesis by (simp add: spec_lead_time_def max_def)
  qed
  ultimately show ?thesis using len nn by blast
qed

lemma example_build: "build_dataset_body example_lib example_raw = Inr example_built"
  by code_simp

lemma example_raw_wf: "wf_frame example_raw"
  by code_simp

theorem lead_time_days_nonneg_witness:
  "build_dataset_body example_lib example_raw = Inr example_built
   \<and> wf_frame example_raw
   \<and> get_series example_built ''lead_time_days'' = Inr (NumCol [Some 3, Some 0, Some 5])
   \<and> (\<exists>xs. NumCol [Some 3, Some 0, Some 5] = NumCol xs \<and> length xs = nrows example_raw
          \<and> (\<forall>x \<in> set xs. \<exists>v. x = Some v \<and> 0 \<le> v))"
proof -
  have g: "get_series example_built ''lead_time_days'' = Inr (NumCol [Some 3, Some 0, Some 5])"
    by code_simp
  from lead_time_days_nonneg[OF example_build example_raw_wf g] example_build example_raw_wf g
  show ?thesis by blast
qed

theorem lead_time_days_rule_witness:
  "build_dataset_body example_lib example_raw = Inr example_built
   \<and> wf_frame example_raw
   \<and> get_series example_built ''order_date'' = Inr (DateCol [Some (1 * ns_per_day), Some (4 * ns_per_day), None])
   \<and> get_series example_built ''shipping_date'' = Inr (DateCol [Some (4 * ns_per_day), Some (1 * ns_per_day), Some (4 * ns_per_day)])
   \<and> get_series example_built ''days_for_shipping_real'' = Inr (NumCol [Some 5, Some 5, Some 5])
   \<and> get_series example_built ''lead_time_days'' = Inr (NumCol [Some 3, Some 0, Some 5])
   \<and> [Some 3, Some 0, Some 5] =
       map (\<lambda>((od, sd), d). spec_lead_time od sd d)
           (zip (zip [Some (1 * ns_per_day), Some (4 * ns_per_day), None]
                     [Some (4 * ns_per_day), Some (1 * ns_per_day), Some (4 * ns_per_day)])
                [Some 5, Some 5, Some 5])"
proof -
  have g1: "get_series example_built ''order_date'' = Inr (DateCol [Some (1 * ns_per_day), Some (4 * ns_per_day), None])"
    by code_simp
  have g2: "get_series example_built ''shipping_date'' = Inr (DateCol [Some (4 * ns_per_day), Some (1 * ns_per_day), Some (4 * ns_per_day)])"
    by code_simp
  have g3: "get_series example_built ''days_for_shipping_real'' = Inr (NumCol [Some 5, Some 5, Some 5])"
    by code_simp
  have g4: "get_series example_built ''lead_time_days'' = Inr (NumCol [Some 3, Some 0, Some 5])"
    by code_simp
  from lead_time_days_rule[OF example_build example_raw_wf g1 g2 g3 g4]
       example_build example_raw_wf g1 g2 g3 g4
  show ?thesis by blast
qed

subsection \<open>Column names\<close>

lemma columns_drop_columns: "set (columns (drop_columns df)) \<subseteq> set (columns df)"
  by (auto simp: columns_def drop_columns_def)

lemma columns_impute_numeric: "columns (impute_numeric df) = columns df"
  by (induction df rule: impute_numeric.induct) (simp_all add: columns_def)

lemma columns_impute_categorical: "impute_categorical df = Inr out \<Longrightarrow> columns out = columns df"
proof (induction df arbitrary: out)
  case Nil
  then show ?case by simp
next
  case (Cons p df)
  obtain m col where p: "p = (m, col)" by (cases p)
  from Cons.prems obtain rest where rest: "impute_categorical df = Inr rest"
    unfolding p by (cases col) (auto simp: bind_err_def split: sum.splits list.splits)
  from Cons.prems rest obtain c' where "out = (m, c') # rest"
    unfolding p by (cases col) (auto simp: bind_err_def split: list.splits)
  with Cons.IH[OF rest] show ?case by (simp add: columns_def p)
qed

lemma columns_set_col_add: "columns (set_col df name c) = add_label (columns df) name"
  by (simp add: columns_set_col add_label_def)

lemma columns_normalize:
  "columns (normalize_columns lib df) = map (normalize_name lib) (columns df)"
  by (simp add: columns_def normalize_columns_def comp_def)

lemma get_series_column: "get_series df name = Inr c \<Longrightarrow> name \<in> set (columns df)"
  using get_series_mem[of df name c] by (force simp: columns_def)

text \<open>
  The labels of the cleaned table are the normalized labels of the frame as it was after
  the three derived columns were added, then \<open>order_month\<close>; and the build succeeds only
  on a raw table that has the date and shipping-days columns under their original names.
\<close>

lemma cleaned_column_names:
  assumes "build_dataset_body lib df = Inr t"
  shows "columns t =
           add_label
             (map (normalize_name lib)
                (add_label (add_label (add_label (columns (drop_columns df)) ''order_date'')
                              ''shipping_date'')
                   ''lead_time_days''))
             ''order_month''"
    and "''order date (DateOrders)'' \<in> set (columns df)"
    and "''shipping date (DateOrders)'' \<in> set (columns df)"
    and "''Days for shipping (real)'' \<in> set (columns df)"
proof -
  from assms obtain d2 osrc ssrc dr c_lead c_month where
    d2: "impute_categorical (impute_numeric (drop_columns df)) = Inr d2" and
    osrc: "get_series d2 ''order date (DateOrders)'' = Inr osrc" and
    ssrc: "get_series d2 ''shipping date (DateOrders)'' = Inr ssrc" and
    dr: "get_series d2 ''Days for shipping (real)'' = Inr (NumCol dr)" and
    t: "t = set_col
           (normalize_columns lib
              (set_col
                 (set_col (set_col d2 ''order_date'' (pd_to_datetime lib osrc))
                    ''shipping_date'' (pd_to_datetime lib ssrc))
                 ''lead_time_days'' c_lead))
           ''order_month'' c_month"
    by (rule build_dataset_body_Inr) blast
  have c2: "columns d2 = columns (drop_columns df)"
    using columns_impute_categorical[OF d2] by (simp add: columns_impute_numeric)
  show "columns t =
           add_label
             (map (normalize_name lib)
                (add_label (add_label (add_label (columns (drop_columns df)) ''order_date'')
                              ''shipping_date'')
                   ''lead_time_days''))
             ''order_month''"
    unfolding t by (simp only: columns_set_col_add columns_normalize c2)
  have orig: "name \<in> set (columns df)" if "get_series d2 name = Inr c" for name c
    using get_series_column[OF that] columns_drop_columns unfolding c2 by blast
  show "''order date (DateOrders)'' \<in> set (columns df)" by (rule orig[OF osrc])
  show "''shipping date (DateOrders)'' \<in> set (columns df)" by (rule orig[OF ssrc])
  show "''Days for shipping (real)'' \<in> set (columns df)" by (rule orig[OF dr])
qed

subsection \<open>The normal form of an ASCII name\<close>

lemma is_ascii_Cons: "is_ascii (c # s) \<longleftrightarrow> \<not> digit7 c \<and> is_ascii s"
  by (simp add: is_ascii_def)

lemma is_ascii_filter: "is_ascii s \<Longrightarrow> is_ascii (filter P s)"
  by (auto simp: is_ascii_def list_all_iff)

lemma ascii_lower_ascii: "c \<in> set ascii_lower \<Longrightarrow> \<not> digit7 c"
  by (auto simp: ascii_lower_def)

lemma char_lower_cases:
  obtains "c \<notin> set ascii_upper" "char_lower c = c"
  | "c \<in> set ascii_upper" "char_lower c \<in> set ascii_lower"
proof (cases "map_of (zip ascii_upper ascii_lower) c")
  case None
  have "length ascii_upper = length ascii_lower"
    by (simp add: ascii_upper_def ascii_lower_def)
  then have "fst ` set (zip ascii_upper ascii_lower) = set ascii_upper"
    by (metis list.set_map map_fst_zip)
  then have "c \<notin> set ascii_upper"
    using None by (simp add: map_of_eq_None_iff)
  with None that(1) show ?thesis by (simp add: char_lower_def)
next
  case (Some l)
  then have m: "(c, l) \<in> set (zip ascii_upper ascii_lower)" by (rule map_of_SomeD)
  then have "l \<in> set ascii_lower" "c \<in> set ascii_upper"
    by (auto dest: set_zip_rightD set_zip_leftD)
  with Some that(2) show ?thesis by (simp add: char_lower_def)
qed

lemma char_lower_ascii: "\<not> digit7 c \<Longrightarrow> \<not> digit7 (char_lower c)"
  by (rule char_lower_cases[of c]) (auto dest: ascii_lower_ascii)

lemma letters_word: "c \<in> set ascii_upper \<or> c \<in> set ascii_lower \<Longrightarrow> is_word_char c"
  by (auto simp: is_word_char_def)

lemma letters_not_space:
  "c \<in> set ascii_upper \<or> c \<in> set ascii_lower \<Longrightarrow> \<not> is_space_char c \<and> c \<noteq> CHR '' ''"
  by (auto simp: is_space_char_def ascii_upper_def ascii_lower_def)

lemma canon_char_step:
  "replace_space (filter (\<lambda>c. is_word_char c \<or> is_space_char c) [char_lower c]) = canon_char c"
proof (rule char_lower_cases[of c])
  assume "c \<notin> set ascii_upper" "char_lower c = c"
  then show ?thesis
    by (auto simp: canon_char_def replace_space_def is_space_char_def)
next
  assume a: "c \<in> set ascii_upper" "char_lower c \<in> set ascii_lower"
  then have "is_word_char (char_lower c)" "char_lower c \<noteq> CHR '' ''"
       "is_word_char c" "c \<noteq> CHR '' ''"
    using letters_word letters_not_space by blast+
  then show ?thesis by (simp add: canon_char_def replace_space_def)
qed

lemma replace_space_append: "replace_space (a @ b) = replace_space a @ replace_space b"
  by (simp add: replace_space_def)

lemma canon_chars:
  "replace_space (filter (\<lambda>c. is_word_char c \<or> is_space_char c) (map char_lower s))
     = concat (map canon_char s)"
proof (induction s)
  case Nil
  then show ?case by (simp add: replace_space_def)
next
  case (Cons c s)
  let ?P = "\<lambda>c. is_word_char c \<or> is_space_char c"
  have "map char_lower (c # s) = [char_lower c] @ map char_lower s" by simp
  then have "replace_space (filter ?P (map char_lower (c # s)))
          = replace_space (filter ?P [char_lower c])
            @ replace_space (filter ?P (map char_lower s))"
    by (simp only: filter_append replace_space_append)
  also have "\<dots> = canon_char c @ concat (map canon_char s)"
    by (simp only: canon_char_step Cons.IH)
  finally show ?case by simp
qed

lemma is_ascii_replace_space: "is_ascii s \<Longrightarrow> is_ascii (replace_space s)"
  by (auto simp: is_ascii_def list_all_iff replace_space_def)

lemma is_ascii_lower: "is_ascii s \<Longrightarrow> is_ascii (map char_lower s)"
  by (auto simp: is_ascii_def list_all_iff char_lower_ascii)

text \<open>
  On an ASCII name the normal form is: each character mapped by \<open>canon_char\<close>, then the
  whitespace at both ends removed. A space is an underscore by then, so spaces at the
  ends of a name stay as underscores and only other whitespace is removed there.
\<close>

lemma normalize_name_ascii:
  assumes "is_ascii s"
  shows "normalize_name lib s =
           rev (dropWhile is_space_char (rev (dropWhile is_space_char (concat (map canon_char s)))))"
proof -
  have 1: "str_lower lib s = map char_lower s"
    using assms by (simp add: str_lower_def)
  have a1: "is_ascii (map char_lower s)" using assms by (rule is_ascii_lower)
  have 2: "remove_punct lib (map char_lower s)
             = filter (\<lambda>c. is_word_char c \<or> is_space_char c) (map char_lower s)"
    using a1 by (simp add: remove_punct_def)
  have a2: "is_ascii (replace_space (remove_punct lib (map char_lower s)))"
    unfolding 2 using a1 by (intro is_ascii_replace_space is_ascii_filter)
  show ?thesis
    unfolding normalize_name_def 1 using a2
    by (simp add: str_strip_def 2 canon_chars)
qed

lemma dropWhile_snoc_keep: "\<not> P x \<Longrightarrow> \<exists>ys. dropWhile P (zs @ [x]) = ys @ [x]"
  by (induction zs) auto

lemma underscore_not_space: "\<not> is_space_char (CHR ''_'')"
  by (simp add: is_space_char_def)

text \<open>
  On every ASCII name, a space at the start gives an underscore at the start of the
  normal form, and a space at the end an underscore at its end.
\<close>

lemma normalize_name_leading_space:
  assumes "is_ascii s"
  shows "\<exists>r. normalize_name lib (CHR '' '' # s) = CHR ''_'' # r"
proof -
  let ?P = is_space_char
  have a: "is_ascii (CHR '' '' # s)" using assms by (simp add: is_ascii_Cons)
  obtain rest where c: "concat (map canon_char (CHR '' '' # s)) = CHR ''_'' # rest"
    by (simp add: canon_char_def)
  have 1: "dropWhile ?P (CHR ''_'' # rest) = CHR ''_'' # rest"
    by (simp add: underscore_not_space)
  have "rev (CHR ''_'' # rest) = rev rest @ [CHR ''_'']" by simp
  with dropWhile_snoc_keep[of ?P "CHR ''_''" "rev rest"] underscore_not_space
  obtain ys where "dropWhile ?P (rev (CHR ''_'' # rest)) = ys @ [CHR ''_'']" by auto
  then have "rev (dropWhile ?P (rev (dropWhile ?P (CHR ''_'' # rest)))) = CHR ''_'' # rev ys"
    by (simp only: 1) simp
  then show ?thesis
    unfolding normalize_name_ascii[OF a] c by blast
qed

lemma normalize_name_trailing_space:
  assumes "is_ascii s"
  shows "\<exists>r. normalize_name lib (s @ '' '') = r @ ''_''"
proof -
  let ?P = is_space_char
  have a: "is_ascii (s @ '' '')" using assms by (simp add: is_ascii_def)
  have c: "concat (map canon_char (s @ '' '')) = concat (map canon_char s) @ ''_''"
    by (simp add: canon_char_def)
  from dropWhile_snoc_keep[of ?P "CHR ''_''" "concat (map canon_char s)"] underscore_not_space
  obtain ys where y: "dropWhile ?P (concat (map canon_char s) @ ''_'') = ys @ ''_''" by auto
  have "dropWhile ?P (rev (ys @ ''_'')) = rev (ys @ ''_'')"
    by (simp add: underscore_not_space)
  then have "rev (dropWhile ?P (rev (dropWhile ?P (concat (map canon_char s) @ ''_'')))) = ys @ ''_''"
    by (simp only: y rev_rev_ident)
  then show ?thesis
    unfolding normalize_name_ascii[OF a] c by blast
qed

text \<open>
  C7. The claim: normalization maps a column name to its canonical form by lower-casing,
  stripping punctuation, replacing spaces with the join character and trimming leading
  and trailing whitespace, after the derived fields were computed from the original
  names. The order holds (\<open>cleaned_column_names\<close>). The trimming does not: the script
  calls \<^verbatim>\<open>.str.strip()\<close> after \<^verbatim>\<open>.str.replace(" ", "_")\<close>, so a space at either end of a
  name is an underscore by then and stays. The raw label \<^verbatim>\<open>" Sales "\<close> becomes
  \<^verbatim>\<open>"_sales_"\<close> in the cleaned table, not \<^verbatim>\<open>"sales"\<close>.
\<close>

theorem column_name_outer_spaces_kept:
  "normalize_name lib '' Sales '' = ''_sales_''
   \<and> (case build_dataset_body example_lib example_padded of Inl e \<Rightarrow> [] | Inr t \<Rightarrow> columns t)
       = [''days_for_shipping_real'', ''order_date_dateorders'', ''order_region'',
          ''shipping_date_dateorders'', ''_sales_'', ''order_date'', ''shipping_date'',
          ''lead_time_days'', ''order_month'']"
proof -
  have 1: "normalize_name lib '' Sales '' = ''_sales_''"
    by code_simp
  have 2: "(case build_dataset_body example_lib example_padded of Inl e \<Rightarrow> [] | Inr t \<Rightarrow> columns t)
       = [''days_for_shipping_real'', ''order_date_dateorders'', ''order_region'',
          ''shipping_date_dateorders'', ''_sales_'', ''order_date'', ''shipping_date'',
          ''lead_time_days'', ''order_month'']"
    by code_simp
  from 1 2 show ?thesis ..
qed

text \<open>
  Whitespace other than the space is removed at the ends, and every space inside a run
  of spaces gives its own underscore.
\<close>

lemma normalize_name_tabs:
  "normalize_name lib (CHR 0x09 # ''Order  Id (x)'' @ [CHR 0x0A]) = ''order__id_x''"
  by code_simp

subsection \<open>Two builds from one raw frame\<close>

















end
